theory Spec2Isabelle
  imports Main "HOL-Library.Sublist"
begin

section \<open>Python strings\<close>

text \<open>
  A Python \<open>str\<close> is modelled as a \<open>string\<close>; one \<open>char\<close> stands for one code point
  (those below 256). \<open>isspace\<close> is the class that both \<open>str.strip()\<close> and the regular
  expression escape \<open>\s\<close> use on \<open>str\<close> patterns, restricted to that range:
  U+0009..U+000D, U+001C..U+0020, U+0085 and U+00A0.
\<close>

definition isspace :: "char \<Rightarrow> bool" where
  "isspace c = (of_char c \<in> {9, 10, 11, 12, 13, 28, 29, 30, 31, 32, 133, 160 :: nat})"

definition lstrip :: "string \<Rightarrow> string" where
  "lstrip s = dropWhile isspace s"

definition rstrip :: "string \<Rightarrow> string" where
  "rstrip s = rev (dropWhile isspace (rev s))"

text \<open>\<open>s.strip()\<close>\<close>

definition strip :: "string \<Rightarrow> string" where
  "strip s = rstrip (lstrip s)"

section \<open>The regular expressions of \<open>_extract_json\<close>\<close>

text \<open>
  The two patterns of \<open>_extract_json\<close> are sequences of literals, an optional literal and
  greedy or lazy stars over a character class. \<open>rx_match\<close> is the backtracking matcher of
  Python's \<open>re\<close> for such sequences, anchored at the start of its input: alternatives are
  tried in the order of the engine (a greedy star and an optional literal take as much as
  they can first and give back on failure, a lazy star takes as little as it can first and
  takes more on failure). The result lists the text consumed by each item.
\<close>

datatype cclass = WS | ANY

fun in_class :: "cclass \<Rightarrow> char \<Rightarrow> bool" where
  "in_class WS c = isspace c"
| "in_class ANY c = True"

datatype rx_item = Lit string | OptLit string | GreedyStar cclass | LazyStar cclass

fun push_char :: "char \<Rightarrow> string list option \<Rightarrow> string list option" where
  "push_char x (Some (g # cs)) = Some ((x # g) # cs)"
| "push_char x _ = None"

fun rx_match :: "rx_item list \<Rightarrow> string \<Rightarrow> string list option" where
  "rx_match [] s = Some []"
| "rx_match (Lit l # r) s =
     (if prefix l s then map_option (Cons l) (rx_match r (drop (length l) s)) else None)"
| "rx_match (OptLit l # r) s =
     (case (if prefix l s then map_option (Cons l) (rx_match r (drop (length l) s)) else None) of
        Some cs \<Rightarrow> Some cs
      | None \<Rightarrow> map_option (Cons []) (rx_match r s))"
| "rx_match (GreedyStar c # r) s =
     (case (case s of
              [] \<Rightarrow> None
            | x # s' \<Rightarrow> if in_class c x then push_char x (rx_match (GreedyStar c # r) s') else None) of
        Some cs \<Rightarrow> Some cs
      | None \<Rightarrow> map_option (Cons []) (rx_match r s))"
| "rx_match (LazyStar c # r) s =
     (case map_option (Cons []) (rx_match r s) of
        Some cs \<Rightarrow> Some cs
      | None \<Rightarrow>
          (case s of
             [] \<Rightarrow> None
           | x # s' \<Rightarrow> if in_class c x then push_char x (rx_match (LazyStar c # r) s') else None))"

text \<open>\<open>re.search\<close>: the leftmost start position at which the pattern matches.\<close>

fun rx_search :: "rx_item list \<Rightarrow> string \<Rightarrow> string list option" where
  "rx_search p [] = rx_match p []"
| "rx_search p (x # s) =
     (case rx_match p (x # s) of Some cs \<Rightarrow> Some cs | None \<Rightarrow> rx_search p s)"

definition fence :: string where
  "fence = ''```''"

text \<open>\<open>r'```(?:json)?\s*([\s\S]*?)\s*```'\<close>; group 1 is the item at index 3.\<close>

definition fence_rx :: "rx_item list" where
  "fence_rx = [Lit fence, OptLit ''json'', GreedyStar WS, LazyStar ANY, GreedyStar WS, Lit fence]"

text \<open>\<open>r'({[\s\S]*})'\<close>; group 1 is the whole match.\<close>

definition brace_rx :: "rx_item list" where
  "brace_rx = [Lit ''{'', GreedyStar ANY, Lit ''}'']"

text \<open>\<open>KnowledgeTreeManager._extract_json\<close>\<close>

definition extract_json :: "string \<Rightarrow> string" where
  "extract_json text =
     (case rx_search fence_rx text of
        Some cs \<Rightarrow> cs ! 3
      | None \<Rightarrow>
          (case rx_search brace_rx text of
             Some cs \<Rightarrow> concat cs
           | None \<Rightarrow> text))"

section \<open>The extractor as the specification words it\<close>

text \<open>\<open>find_first pat s\<close> splits \<open>s\<close> around the first occurrence of \<open>pat\<close>.\<close>

fun find_first :: "string \<Rightarrow> string \<Rightarrow> (string \<times> string) option" where
  "find_first pat [] = (if pat = [] then Some ([], []) else None)"
| "find_first pat (x # s) =
     (if prefix pat (x # s) then Some ([], drop (length pat) (x # s))
      else map_option (\<lambda>(a, b). (x # a, b)) (find_first pat s))"

text \<open>The inner content of the first fenced block: what stands between the first triple
  backtick and the next one after it.\<close>

definition fenced_block :: "string \<Rightarrow> string option" where
  "fenced_block text =
     (case find_first fence text of
        None \<Rightarrow> None
      | Some (a, rest) \<Rightarrow> map_option fst (find_first fence rest))"

text \<open>The optional \<open>json\<close> tag right after the opening fence.\<close>

definition untag :: "string \<Rightarrow> string" where
  "untag b = (if prefix ''json'' b then drop (length ''json'') b else b)"

text \<open>From the first \<open>{\<close> through the last \<open>}\<close>, when some \<open>}\<close> follows the first \<open>{\<close>.\<close>

definition upto_last :: "char \<Rightarrow> string \<Rightarrow> string" where
  "upto_last c s = rev (dropWhile (\<lambda>x. x \<noteq> c) (rev s))"

definition brace_span :: "string \<Rightarrow> string option" where
  "brace_span text =
     (case find_first ''{'' text of
        None \<Rightarrow> None
      | Some (a, rest) \<Rightarrow>
          if CHR ''}'' \<in> set rest then Some (CHR ''{'' # upto_last CHR ''}'' rest) else None)"

definition extract_json_spec :: "string \<Rightarrow> string" where
  "extract_json_spec text =
     (case fenced_block text of
        Some inner \<Rightarrow> strip (untag inner)
      | None \<Rightarrow> (case brace_span text of Some t \<Rightarrow> t | None \<Rightarrow> text))"

text \<open>The three inputs of the specification's test of the extractor.\<close>

definition ex_fenced :: string where
  \<open>ex_fenced = ''prefix ```json\<newline>{"a":1}\<newline>``` suffix''\<close>

definition ex_braces :: string where
  \<open>ex_braces = ''foo {"a":1} bar''\<close>

definition ex_plain :: string where
  \<open>ex_plain = ''no json here''\<close>

section \<open>Python values, exceptions and effects\<close>

text \<open>
  What \<open>json.loads\<close> and the search provider return: \<open>None\<close>, booleans, numbers,
  strings, lists and dictionaries. A dictionary is an association list with distinct keys,
  in insertion order. No function of the program reads a number, so integers stand for all
  of them.
\<close>

datatype json =
    JNull
  | JBool bool
  | JNum int
  | JStr string
  | JArr "json list"
  | JObj "(string \<times> json) list"

text \<open>An exception caught by \<open>except Exception as e\<close>; the field is \<open>str(e)\<close>.\<close>

datatype exn = Exn (message: string)

text \<open>
  The calls that leave the process, in the order in which they are made:
  \<open>SerpAPIWrapper.run\<close>, \<open>GoogleSearch(params).get_dict()\<close>, \<open>requests.get\<close>, the
  \<open>invoke\<close> of the model of \<open>KnowledgeTreeManager\<close>, the \<open>invoke\<close> of the model of
  \<open>WebScraper\<close>, and \<open>time.sleep\<close>.
\<close>

datatype event =
    SerpRun string
  | SerpGetDict string int
  | HttpGet json
  | TreeLlm string
  | ScraperLlm string
  | Sleep nat

datatype template = TreeTemplate | ExpandTemplate | SummaryTemplate

datatype node = NavigableString string | Comment string | Tag string "node list"

text \<open>
  The libraries and services the program calls, as parameters. Each returns its value or the
  exception it raises.
  \<^item> \<open>serp_run query\<close>: \<open>self.search.run(query)\<close>.
  \<^item> \<open>serp_get_dict query num\<close>: \<open>GoogleSearch({"engine": "google", "q": query,
    "api_key": ..., "num": num}).get_dict()\<close>, a dictionary.
  \<^item> \<open>http_get url\<close>: \<open>requests.get(url, headers=headers, timeout=10)\<close>, then
    \<open>raise_for_status()\<close>, then \<open>response.text\<close>.
  \<^item> \<open>soup_parse html\<close>: \<open>BeautifulSoup(html, 'html.parser')\<close>, the children of the
    document. \<open>Comment\<close> stands for every string that \<open>get_text()\<close> leaves out.
  \<^item> \<open>tree_model prompt\<close> and \<open>scraper_model prompt\<close>: \<open>self.model.invoke(prompt).content\<close>
    of the two classes.
  \<^item> \<open>prompt_format t kwargs\<close>: \<open>PromptTemplate.from_template(t).format(**kwargs)\<close> for the
    three templates of the source.
  \<^item> \<open>json_loads\<close>: \<open>json.loads\<close>.
  \<^item> \<open>py_str v\<close>: what an f-string prints for a value that is not a string.
\<close>

record services =
  serp_run :: "string \<Rightarrow> exn + string"
  serp_get_dict :: "string \<Rightarrow> int \<Rightarrow> exn + (string \<times> json) list"
  http_get :: "json \<Rightarrow> exn + string"
  soup_parse :: "string \<Rightarrow> exn + node list"
  tree_model :: "string \<Rightarrow> exn + json"
  scraper_model :: "string \<Rightarrow> exn + json"
  prompt_format :: "template \<Rightarrow> (string \<times> string) list \<Rightarrow> exn + string"
  json_loads :: "string \<Rightarrow> exn + json"
  py_str :: "json \<Rightarrow> string"

text \<open>
  A Python computation takes the calls made so far and returns its value, or the exception
  it raises, together with the calls made until then. A service is a function of its
  arguments: asked twice for the same thing it answers the same. Calls of \<open>logger\<close> and of
  the display (\<open>st.progress\<close>, \<open>st.empty\<close>, \<open>status_text.text\<close>) are left out, and the
  constructors of the clients are taken to succeed.
\<close>

type_synonym 'a py = "event list \<Rightarrow> (exn + 'a) \<times> event list"

definition return_py :: "'a \<Rightarrow> 'a py" where
  "return_py x = (\<lambda>tr. (Inr x, tr))"

definition lift :: "exn + 'a \<Rightarrow> 'a py" where
  "lift r = (\<lambda>tr. (r, tr))"

definition call :: "event \<Rightarrow> exn + 'a \<Rightarrow> 'a py" where
  "call ev r = (\<lambda>tr. (r, tr @ [ev]))"

definition bind_py :: "'a py \<Rightarrow> ('a \<Rightarrow> 'b py) \<Rightarrow> 'b py" where
  "bind_py m f = (\<lambda>tr. case m tr of (Inl e, tr') \<Rightarrow> (Inl e, tr') | (Inr x, tr') \<Rightarrow> f x tr')"

text \<open>\<open>try: body except Exception as e: handler\<close>\<close>

definition try_except :: "'a py \<Rightarrow> (exn \<Rightarrow> 'a py) \<Rightarrow> 'a py" where
  "try_except body handler =
     (\<lambda>tr. case body tr of (Inl e, tr') \<Rightarrow> handler e tr' | (Inr x, tr') \<Rightarrow> (Inr x, tr'))"

subsection \<open>Operations on values\<close>

text \<open>\<open>type(v).__name__\<close>, for the messages of \<open>TypeError\<close> and \<open>AttributeError\<close>.\<close>

definition type_name :: "json \<Rightarrow> string" where
  "type_name v =
     (case v of
        JNull \<Rightarrow> ''NoneType''
      | JBool b \<Rightarrow> ''bool''
      | JNum n \<Rightarrow> ''int''
      | JStr s \<Rightarrow> ''str''
      | JArr xs \<Rightarrow> ''list''
      | JObj d \<Rightarrow> ''dict'')"

definition quoted :: "string \<Rightarrow> string" where
  "quoted s = [CHR 0x27] @ s @ [CHR 0x27]"

text \<open>\<open>xs[:n]\<close>\<close>

definition py_slice_to :: "'a list \<Rightarrow> int \<Rightarrow> 'a list" where
  "py_slice_to xs n = (if 0 \<le> n then take (nat n) xs else take (length xs - nat (- n)) xs)"

text \<open>\<open>v[:n]\<close> on a value, as the list that the \<open>for\<close> loop then iterates over.\<close>

definition slice_items :: "json \<Rightarrow> int \<Rightarrow> exn + json list" where
  "slice_items v n =
     (case v of
        JArr xs \<Rightarrow> Inr (py_slice_to xs n)
      | JStr s \<Rightarrow> Inr (map (\<lambda>c. JStr [c]) (py_slice_to s n))
      | JObj d \<Rightarrow> Inl (Exn (''unhashable type: '' @ quoted ''slice''))
      | _ \<Rightarrow> Inl (Exn (quoted (type_name v) @ '' object is not subscriptable'')))"

text \<open>\<open>v.get(k, default)\<close>\<close>

definition py_get :: "json \<Rightarrow> string \<Rightarrow> json \<Rightarrow> exn + json" where
  "py_get v k dflt =
     (case v of
        JObj d \<Rightarrow> Inr (case map_of d k of Some x \<Rightarrow> x | None \<Rightarrow> dflt)
      | _ \<Rightarrow>
          Inl (Exn (quoted (type_name v) @ '' object has no attribute '' @ quoted ''get'')))"

text \<open>\<open>v[k]\<close> for a string key\<close>

definition py_getitem :: "json \<Rightarrow> string \<Rightarrow> exn + json" where
  "py_getitem v k =
     (case v of
        JObj d \<Rightarrow> (case map_of d k of Some x \<Rightarrow> Inr x | None \<Rightarrow> Inl (Exn (quoted k)))
      | JArr xs \<Rightarrow> Inl (Exn ''list indices must be integers or slices, not str'')
      | JStr s \<Rightarrow> Inl (Exn (''string indices must be integers, not '' @ quoted ''str''))
      | _ \<Rightarrow> Inl (Exn (quoted (type_name v) @ '' object is not subscriptable'')))"

fun dict_set :: "string \<Rightarrow> json \<Rightarrow> (string \<times> json) list \<Rightarrow> (string \<times> json) list" where
  "dict_set k v [] = [(k, v)]"
| "dict_set k v ((k', v') # kvs) =
     (if k' = k then (k, v) # kvs else (k', v') # dict_set k v kvs)"

text \<open>\<open>d[k] = v\<close> for a string key\<close>

definition py_setitem :: "json \<Rightarrow> string \<Rightarrow> json \<Rightarrow> exn + json" where
  "py_setitem d k v =
     (case d of
        JObj kvs \<Rightarrow> Inr (JObj (dict_set k v kvs))
      | JArr xs \<Rightarrow> Inl (Exn ''list indices must be integers or slices, not str'')
      | _ \<Rightarrow> Inl (Exn (quoted (type_name d) @ '' object does not support item assignment'')))"

text \<open>A value inside an f-string.\<close>

definition to_str :: "services \<Rightarrow> json \<Rightarrow> string" where
  "to_str sv v = (case v of JStr s \<Rightarrow> s | _ \<Rightarrow> py_str sv v)"

text \<open>\<open>sep.join(xs)\<close>\<close>

fun join :: "string \<Rightarrow> string list \<Rightarrow> string" where
  "join sep [] = []"
| "join sep [x] = x"
| "join sep (x # y # ys) = x @ sep @ join sep (y # ys)"

section \<open>\<open>web_scraper.py\<close>\<close>

subsection \<open>\<open>WebScraper.search_web\<close>\<close>

text \<open>The dictionary literal appended for one organic result.\<close>

definition format_result :: "json \<Rightarrow> exn + json" where
  "format_result result =
     (case py_get result ''title'' (JStr []) of
        Inl e \<Rightarrow> Inl e
      | Inr t \<Rightarrow>
          (case py_get result ''snippet'' (JStr []) of
             Inl e \<Rightarrow> Inl e
           | Inr sn \<Rightarrow>
               (case py_get result ''link'' (JStr []) of
                  Inl e \<Rightarrow> Inl e
                | Inr l \<Rightarrow> Inr (JObj [(''title'', t), (''snippet'', sn), (''link'', l)]))))"

text \<open>The \<open>for\<close> loop that fills \<open>formatted_results\<close>.\<close>

fun format_results :: "json list \<Rightarrow> exn + json list" where
  "format_results [] = Inr []"
| "format_results (result # rest) =
     (case format_result result of
        Inl e \<Rightarrow> Inl e
      | Inr r \<Rightarrow> (case format_results rest of Inl e \<Rightarrow> Inl e | Inr rs \<Rightarrow> Inr (r # rs)))"

definition search_web :: "services \<Rightarrow> string \<Rightarrow> int \<Rightarrow> json list py" where
  "search_web sv query num_results =
     try_except
       (bind_py (call (SerpRun query) (serp_run sv query)) (\<lambda>raw_results.
        bind_py (call (SerpGetDict query num_results) (serp_get_dict sv query num_results))
          (\<lambda>results.
             if results = [] \<or> map_of results ''organic_results'' = None then return_py []
             else
               bind_py (lift (py_getitem (JObj results) ''organic_results'')) (\<lambda>organic.
               bind_py (lift (slice_items organic num_results)) (\<lambda>items.
               lift (format_results items))))))
       (\<lambda>e. return_py [])"

subsection \<open>The text of a parsed page\<close>

text \<open>
  \<open>for script in soup(["script", "style", "nav", "footer", "header"]): script.extract()\<close>
  takes every element with one of these names out of the tree, at every depth.
\<close>

definition removed_tags :: "string list" where
  "removed_tags = [''script'', ''style'', ''nav'', ''footer'', ''header'']"

fun extract_tags :: "string list \<Rightarrow> node \<Rightarrow> node list" where
  "extract_tags names (Tag n children) =
     (if n \<in> set names then [] else [Tag n (concat (map (extract_tags names) children))])"
| "extract_tags names (NavigableString s) = [NavigableString s]"
| "extract_tags names (Comment s) = [Comment s]"

text \<open>\<open>get_text()\<close>: the strings of the tree, in document order, joined by nothing.\<close>

fun get_text :: "node \<Rightarrow> string" where
  "get_text (NavigableString s) = s"
| "get_text (Comment s) = []"
| "get_text (Tag n children) = concat (map get_text children)"

text \<open>The line boundaries of \<open>str.splitlines()\<close> below U+0100.\<close>

definition is_linebreak :: "char \<Rightarrow> bool" where
  "is_linebreak c = (of_char c \<in> {10, 11, 12, 13, 28, 29, 30, 133 :: nat})"

text \<open>\<open>text.splitlines()\<close>; the first argument is the line read so far, reversed. A carriage
  return followed by a line feed is one boundary.\<close>

fun splitlines_from :: "string \<Rightarrow> string \<Rightarrow> string list" where
  "splitlines_from cur [] = (if cur = [] then [] else [rev cur])"
| "splitlines_from cur [c] = (if is_linebreak c then [rev cur] else [rev (c # cur)])"
| "splitlines_from cur (c # d # cs) =
     (if c = CHR 0x0D \<and> d = CHR 0x0A then rev cur # splitlines_from [] cs
      else if is_linebreak c then rev cur # splitlines_from [] (d # cs)
      else splitlines_from (c # cur) (d # cs))"

definition splitlines :: "string \<Rightarrow> string list" where
  "splitlines s = splitlines_from [] s"

text \<open>\<open>line.split("  ")\<close>; the first argument is the piece read so far, reversed.\<close>

fun split_from :: "string \<Rightarrow> string \<Rightarrow> string list" where
  "split_from cur [] = [rev cur]"
| "split_from cur [c] = [rev (c # cur)]"
| "split_from cur (c # d # cs) =
     (if c = CHR '' '' \<and> d = CHR '' '' then rev cur # split_from [] cs
      else split_from (c # cur) (d # cs))"

definition split_two_spaces :: "string \<Rightarrow> string list" where
  "split_two_spaces line = split_from [] line"

text \<open>Lines 81 to 95 of \<open>fetch_article_content\<close>, on the parsed page.\<close>

definition soup_text :: "node list \<Rightarrow> string" where
  "soup_text soup =
     (let text = concat (map get_text (concat (map (extract_tags removed_tags) soup)));
          lines = map strip (splitlines text);
          chunks = concat (map (\<lambda>line. map strip (split_two_spaces line)) lines);
          text = join ''\<newline>'' (filter (\<lambda>chunk. chunk \<noteq> []) chunks)
      in take 8000 text)"

subsection \<open>\<open>WebScraper.fetch_article_content\<close>\<close>

definition fetch_article_content :: "services \<Rightarrow> json \<Rightarrow> string py" where
  "fetch_article_content sv url =
     try_except
       (bind_py (call (HttpGet url) (http_get sv url)) (\<lambda>response_text.
        bind_py (lift (soup_parse sv response_text)) (\<lambda>soup.
        return_py (soup_text soup))))
       (\<lambda>e. return_py [])"

subsection \<open>\<open>WebScraper.analyze_topic\<close>\<close>

text \<open>An entry of \<open>content_data\<close>, with its keys \<open>title\<close>, \<open>content\<close> and \<open>url\<close>.\<close>

record source_document =
  sd_title :: json
  sd_content :: string
  sd_url :: json

text \<open>\<open>"\n\n".join([f"SOURCE: {item['title']}\n{item['content']}" for item in content_data])\<close>\<close>

definition source_block :: "services \<Rightarrow> source_document \<Rightarrow> string" where
  "source_block sv item =
     ''SOURCE: '' @ to_str sv (sd_title item) @ ''\<newline>'' @ sd_content item"

definition combined_content :: "services \<Rightarrow> source_document list \<Rightarrow> string" where
  "combined_content sv content_data = join ''\<newline>\<newline>'' (map (source_block sv) content_data)"

text \<open>The loop of \<open>analyze_topic\<close> over \<open>search_results[:3]\<close>, with its \<open>time.sleep(1)\<close>.\<close>

primrec analyze_fetch :: "services \<Rightarrow> json list \<Rightarrow> source_document list py" where
  "analyze_fetch sv [] = return_py []"
| "analyze_fetch sv (result # rest) =
     bind_py (lift (py_getitem result ''link'')) (\<lambda>link.
     bind_py (fetch_article_content sv link) (\<lambda>content.
       if content \<noteq> [] then
         bind_py (lift (py_getitem result ''title'')) (\<lambda>t.
         bind_py (lift (py_getitem result ''link'')) (\<lambda>u.
         bind_py (call (Sleep 1) (Inr ())) (\<lambda>_.
         bind_py (analyze_fetch sv rest) (\<lambda>content_data.
         return_py (\<lparr>sd_title = t, sd_content = content, sd_url = u\<rparr> # content_data)))))
       else analyze_fetch sv rest))"

text \<open>\<open>WebScraper._summarize_content\<close>\<close>

definition summarize_content :: "services \<Rightarrow> string \<Rightarrow> string \<Rightarrow> json py" where
  "summarize_content sv topic content =
     try_except
       (bind_py (lift (prompt_format sv SummaryTemplate [(''topic'', topic), (''content'', content)]))
          (\<lambda>prompt. call (ScraperLlm prompt) (scraper_model sv prompt)))
       (\<lambda>e. return_py (JStr ''Failed to summarize content due to an error.''))"

definition analyze_topic :: "services \<Rightarrow> string \<Rightarrow> json py" where
  "analyze_topic sv topic =
     bind_py (search_web sv topic 5) (\<lambda>search_results.
     bind_py (analyze_fetch sv (py_slice_to search_results 3)) (\<lambda>content_data.
     bind_py (summarize_content sv topic (combined_content sv content_data)) (\<lambda>summary.
     return_py (JObj [(''topic'', JStr topic), (''summary'', summary),
                      (''sources'', JArr (map sd_url content_data))]))))"

section \<open>\<open>knowledge_tree.py\<close>\<close>

text \<open>\<open>self._extract_json(response.content)\<close>: \<open>re.search\<close> raises a \<open>TypeError\<close> on a content
  that is not a string.\<close>

definition extract_json_of :: "json \<Rightarrow> exn + string" where
  "extract_json_of response_content =
     (case response_content of
        JStr s \<Rightarrow> Inr (extract_json s)
      | _ \<Rightarrow> Inl (Exn ''expected string or bytes-like object''))"

text \<open>The structure returned by the \<open>except\<close> branch of \<open>generate_knowledge_tree\<close>.\<close>

definition fallback_tree :: "string \<Rightarrow> exn \<Rightarrow> json" where
  "fallback_tree topic e =
     JObj [(''topic'', JStr topic),
           (''subtopics'', JArr [
              JObj [(''name'', JStr ''Error generating knowledge tree''),
                    (''key_points'', JArr [
                       JObj [(''point'', JStr ''Error''),
                             (''explanation'',
                              JStr (''Failed to generate knowledge tree: '' @ message e))]])]])]"

text \<open>
  The \<open>try\<close> block of \<open>generate_knowledge_tree\<close> holds the rendering of the prompt, the call
  of the model, the extraction and the decoding; \<open>PromptTemplate.from_template\<close>, before the
  block, is applied to a constant of the source.
\<close>

definition generate_knowledge_tree :: "services \<Rightarrow> string \<Rightarrow> string \<Rightarrow> json py" where
  "generate_knowledge_tree sv topic content =
     try_except
       (bind_py (lift (prompt_format sv TreeTemplate [(''topic'', topic), (''content'', content)]))
          (\<lambda>prompt.
        bind_py (call (TreeLlm prompt) (tree_model sv prompt)) (\<lambda>response_content.
        bind_py (lift (extract_json_of response_content)) (\<lambda>json_str.
        lift (json_loads sv json_str)))))
       (\<lambda>e. return_py (fallback_tree topic e))"

text \<open>The structure returned by the \<open>except\<close> branch of \<open>expand_subtopic\<close>.\<close>

definition fallback_expansion :: "string \<Rightarrow> exn \<Rightarrow> json" where
  "fallback_expansion subtopic e =
     JObj [(''subtopic'', JStr subtopic),
           (''overview'', JStr (''Failed to expand subtopic: '' @ message e)),
           (''aspects'', JArr [])]"

definition expand_subtopic :: "services \<Rightarrow> string \<Rightarrow> string \<Rightarrow> string \<Rightarrow> json py" where
  "expand_subtopic sv topic subtopic content =
     try_except
       (bind_py (lift (prompt_format sv ExpandTemplate
                   [(''topic'', topic), (''subtopic'', subtopic), (''content'', content)]))
          (\<lambda>prompt.
        bind_py (call (TreeLlm prompt) (tree_model sv prompt)) (\<lambda>response_content.
        bind_py (lift (extract_json_of response_content)) (\<lambda>json_str.
        lift (json_loads sv json_str)))))
       (\<lambda>e. return_py (fallback_expansion subtopic e))"

text \<open>\<open>KnowledgeTreeManager.research_topic\<close>\<close>

definition research_topic :: "services \<Rightarrow> string \<Rightarrow> string \<Rightarrow> json list \<Rightarrow> json py" where
  "research_topic sv topic summary sources =
     bind_py (generate_knowledge_tree sv topic summary) (\<lambda>knowledge_tree.
     lift (py_setitem knowledge_tree ''sources'' (JArr sources)))"

subsection \<open>The shape of a knowledge tree\<close>

text \<open>
  The shape that the builder declares for its result, in the JSON schema of its prompt: an
  object with a string \<open>topic\<close> and a list \<open>subtopics\<close> of objects with a string \<open>name\<close> and a
  list \<open>key_points\<close> of objects with the strings \<open>point\<close> and \<open>explanation\<close>. The \<open>sources\<close>
  of the specification's KnowledgeTree are attached afterwards by the caller; when the field
  is there it is a list.
\<close>

definition is_str :: "json option \<Rightarrow> bool" where
  "is_str v = (case v of Some (JStr s) \<Rightarrow> True | _ \<Rightarrow> False)"

definition is_key_point :: "json \<Rightarrow> bool" where
  "is_key_point v =
     (case v of
        JObj d \<Rightarrow> is_str (map_of d ''point'') \<and> is_str (map_of d ''explanation'')
      | _ \<Rightarrow> False)"

definition is_subtopic :: "json \<Rightarrow> bool" where
  "is_subtopic v =
     (case v of
        JObj d \<Rightarrow>
          is_str (map_of d ''name'') \<and>
          (case map_of d ''key_points'' of Some (JArr ps) \<Rightarrow> list_all is_key_point ps | _ \<Rightarrow> False)
      | _ \<Rightarrow> False)"

definition is_knowledge_tree :: "json \<Rightarrow> bool" where
  "is_knowledge_tree v =
     (case v of
        JObj d \<Rightarrow>
          is_str (map_of d ''topic'') \<and>
          (case map_of d ''subtopics'' of Some (JArr ss) \<Rightarrow> list_all is_subtopic ss | _ \<Rightarrow> False) \<and>
          (case map_of d ''sources'' of None \<Rightarrow> True | Some (JArr us) \<Rightarrow> True | _ \<Rightarrow> False)
      | _ \<Rightarrow> False)"

section \<open>\<open>app.py\<close>: the handler of the button "Generate Knowledge Tree"\<close>

text \<open>
  What the handler leaves behind: the message of \<open>st.error\<close> for an empty topic, the message
  of \<open>st.error\<close> for no search results, the tree stored in
  \<open>st.session_state.knowledge_tree\<close>, or the message \<open>An error occurred: ...\<close> of the outer
  \<open>except\<close>.
\<close>

datatype outcome = EmptyTopic | NoResults | TreeReady json | Crashed string

text \<open>
  \<open>TreeReady\<close> stands for the end of the \<open>else\<close> branch: the tree is stored, the handler
  sleeps one second and asks for a rerun of the script.
\<close>

text \<open>The loop over \<open>search_results\<close> that fills \<open>content_data\<close>.\<close>

primrec collect_content :: "services \<Rightarrow> json list \<Rightarrow> source_document list py" where
  "collect_content sv [] = return_py []"
| "collect_content sv (result # rest) =
     bind_py (lift (py_getitem result ''link'')) (\<lambda>link.
     bind_py (fetch_article_content sv link) (\<lambda>content.
       if content \<noteq> [] then
         bind_py (lift (py_getitem result ''title'')) (\<lambda>t.
         bind_py (lift (py_getitem result ''link'')) (\<lambda>u.
         bind_py (collect_content sv rest) (\<lambda>content_data.
         return_py (\<lparr>sd_title = t, sd_content = content, sd_url = u\<rparr> # content_data))))
       else collect_content sv rest))"

definition search_button_handler :: "services \<Rightarrow> string \<Rightarrow> int \<Rightarrow> outcome py" where
  "search_button_handler sv topic num_results =
     (if topic = [] then return_py EmptyTopic
      else
        try_except
          (bind_py (search_web sv topic num_results) (\<lambda>search_results.
             if search_results = [] then return_py NoResults
             else
               bind_py (collect_content sv search_results) (\<lambda>content_data.
               bind_py (generate_knowledge_tree sv topic (combined_content sv content_data))
                 (\<lambda>knowledge_tree.
               bind_py (lift (py_setitem knowledge_tree ''sources'' (JArr (map sd_url content_data))))
                 (\<lambda>tree.
               bind_py (call (Sleep 1) (Inr ())) (\<lambda>_.
               return_py (TreeReady tree)))))))
          (\<lambda>e. return_py (Crashed (''An error occurred: '' @ message e))))"

section \<open>Auxiliary definitions for the statements\<close>

text \<open>The addresses fetched and the prompts sent to a model, in a list of calls.\<close>

fun fetch_calls :: "event list \<Rightarrow> json list" where
  "fetch_calls [] = []"
| "fetch_calls (HttpGet u # evs) = u # fetch_calls evs"
| "fetch_calls (ev # evs) = fetch_calls evs"

fun llm_calls :: "event list \<Rightarrow> string list" where
  "llm_calls [] = []"
| "llm_calls (TreeLlm p # evs) = p # llm_calls evs"
| "llm_calls (ScraperLlm p # evs) = p # llm_calls evs"
| "llm_calls (ev # evs) = llm_calls evs"

text \<open>The text that \<open>fetch_article_content\<close> returns for an address: the cleaned page, or the
  empty string when the request or the parser raises.\<close>

definition fetched :: "services \<Rightarrow> json \<Rightarrow> string" where
  "fetched sv u =
     (case http_get sv u of
        Inl e \<Rightarrow> []
      | Inr response_text \<Rightarrow>
          (case soup_parse sv response_text of Inl e \<Rightarrow> [] | Inr soup \<Rightarrow> soup_text soup))"

text \<open>The value under a key of a dictionary, \<open>None\<close> standing for a missing key.\<close>

definition field :: "json \<Rightarrow> string \<Rightarrow> json" where
  "field v k = (case v of JObj d \<Rightarrow> (case map_of d k of Some x \<Rightarrow> x | None \<Rightarrow> JNull) | _ \<Rightarrow> JNull)"

text \<open>A search result survives when the text fetched from its link is not empty; the entry of
  \<open>content_data\<close> that it then gives.\<close>

definition survives :: "services \<Rightarrow> json \<Rightarrow> bool" where
  "survives sv r = (fetched sv (field r ''link'') \<noteq> [])"

definition source_of :: "services \<Rightarrow> json \<Rightarrow> source_document" where
  "source_of sv r =
     \<lparr>sd_title = field r ''title'', sd_content = fetched sv (field r ''link''),
      sd_url = field r ''link''\<rparr>"

text \<open>The SearchResult of the specification: exactly the fields \<open>title\<close>, \<open>snippet\<close> and
  \<open>url\<close>, each a string.\<close>

definition is_search_result_spec :: "json \<Rightarrow> bool" where
  "is_search_result_spec v =
     (case v of
        JObj d \<Rightarrow>
          set (map fst d) = {''title'', ''snippet'', ''url''} \<and> length d = 3 \<and>
          is_str (map_of d ''title'') \<and> is_str (map_of d ''snippet'') \<and> is_str (map_of d ''url'')
      | _ \<Rightarrow> False)"

text \<open>The same with the key \<open>link\<close> in the place of \<open>url\<close>.\<close>

definition is_search_result_link :: "json \<Rightarrow> bool" where
  "is_search_result_link v =
     (case v of
        JObj d \<Rightarrow>
          set (map fst d) = {''title'', ''snippet'', ''link''} \<and> length d = 3 \<and>
          is_str (map_of d ''title'') \<and> is_str (map_of d ''snippet'') \<and> is_str (map_of d ''link'')
      | _ \<Rightarrow> False)"

text \<open>The entry that \<open>search_web\<close> builds from the organic result \<open>d\<close> of the provider.\<close>

definition search_result_of :: "(string \<times> json) list \<Rightarrow> json" where
  "search_result_of d =
     JObj [(''title'', case map_of d ''title'' of Some x \<Rightarrow> x | None \<Rightarrow> JStr []),
           (''snippet'', case map_of d ''snippet'' of Some x \<Rightarrow> x | None \<Rightarrow> JStr []),
           (''link'', case map_of d ''link'' of Some x \<Rightarrow> x | None \<Rightarrow> JStr [])]"

text \<open>
  Two pages are the same outside the elements named in \<open>names\<close> when they differ at most in
  what stands inside such elements.
\<close>

inductive same_outside :: "string list \<Rightarrow> node \<Rightarrow> node \<Rightarrow> bool" for names where
  so_string: "same_outside names (NavigableString s) (NavigableString s)"
| so_comment: "same_outside names (Comment s) (Comment s)"
| so_removed: "n \<in> set names \<Longrightarrow> same_outside names (Tag n cs) (Tag n ds)"
| so_tag: "list_all2 (same_outside names) cs ds \<Longrightarrow> same_outside names (Tag n cs) (Tag n ds)"

subsection \<open>A sample run\<close>

definition sample_results :: "(string \<times> json) list" where
  "sample_results =
     [(''organic_results'', JArr [
        JObj [(''title'', JStr ''A''), (''snippet'', JStr ''a''), (''link'', JStr ''http://a'')],
        JObj [(''title'', JStr ''B''), (''link'', JStr ''http://b'')],
        JObj [(''title'', JStr ''C''), (''snippet'', JStr ''c''), (''link'', JStr ''http://c'')],
        JObj [(''title'', JStr ''D''), (''snippet'', JStr ''d''), (''link'', JStr ''http://d'')]])]"

definition sample_page :: "node list" where
  "sample_page =
     [Tag ''html'' [
        Tag ''header'' [Tag ''a'' [NavigableString ''Menu'']],
        Tag ''script'' [NavigableString ''var x = 1;''],
        Tag ''p'' [NavigableString ''Hello  world'']]]"

definition sample_services :: services where
  "sample_services =
     \<lparr> serp_run = (\<lambda>q. Inr ''raw''),
       serp_get_dict = (\<lambda>q n. Inr sample_results),
       http_get = (\<lambda>u. if u = JStr ''http://b'' then Inl (Exn ''404 Client Error'')
                        else Inr ''<html>''),
       soup_parse = (\<lambda>h. Inr sample_page),
       tree_model = (\<lambda>p. Inl (Exn ''quota exceeded'')),
       scraper_model = (\<lambda>p. Inr (JStr ''summary'')),
       prompt_format = (\<lambda>t kw. Inr ''prompt''),
       json_loads = (\<lambda>s. Inl (Exn ''Expecting value'')),
       py_str = (\<lambda>v. ''None'') \<rparr>"

text \<open>A provider whose only organic result has \<open>null\<close> for its title.\<close>

definition null_title_services :: services where
  "null_title_services =
     sample_services\<lparr>serp_get_dict := \<lambda>q n. Inr [(''organic_results'', JArr [
        JObj [(''title'', JNull), (''snippet'', JStr ''a''), (''link'', JStr ''http://a'')]])]\<rparr>"

text \<open>A model that answers \<open>[]\<close>, which \<open>json.loads\<close> decodes to the empty list.\<close>

definition list_answer_services :: services where
  "list_answer_services =
     sample_services\<lparr>tree_model := \<lambda>p. Inr (JStr ''[]''),
       json_loads := \<lambda>s. if s = ''[]'' then Inr (JArr []) else Inl (Exn ''Expecting value'')\<rparr>"

section \<open>Correctness of the JSON-in-prose extractor\<close>

declare rx_match.simps [simp del]

lemma rx_match_Nil: "rx_match [] s = Some []"
  by (simp add: rx_match.simps)

lemma rx_match_Lit:
  "rx_match (Lit l # r) s =
     (if prefix l s then map_option (Cons l) (rx_match r (drop (length l) s)) else None)"
  by (simp add: rx_match.simps)

lemma rx_match_Greedy_Nil:
  "rx_match (GreedyStar c # r) [] = map_option (Cons []) (rx_match r [])"
  by (simp add: rx_match.simps)

lemma rx_match_Greedy_Cons:
  "rx_match (GreedyStar c # r) (x # s) =
     (case (if in_class c x then push_char x (rx_match (GreedyStar c # r) s) else None) of
        Some cs \<Rightarrow> Some cs
      | None \<Rightarrow> map_option (Cons []) (rx_match r (x # s)))"
  by (subst rx_match.simps) simp

lemma rx_match_Lazy_Nil:
  "rx_match (LazyStar c # r) [] = map_option (Cons []) (rx_match r [])"
  by (subst rx_match.simps) (simp split: option.splits)

lemma rx_match_Lazy_Cons:
  "rx_match (LazyStar c # r) (x # s) =
     (case map_option (Cons []) (rx_match r (x # s)) of
        Some cs \<Rightarrow> Some cs
      | None \<Rightarrow> if in_class c x then push_char x (rx_match (LazyStar c # r) s) else None)"
  by (subst rx_match.simps) (simp split: option.splits)

lemmas rx_steps = rx_match_Nil rx_match_Lit rx_match_Greedy_Nil rx_match_Greedy_Cons
  rx_match_Lazy_Nil rx_match_Lazy_Cons

lemma fence_head_not_space: "prefix fence (x # s) \<Longrightarrow> \<not> isspace x"
  by (auto simp: fence_def isspace_def)

lemma fence_not_Nil [simp]: "fence \<noteq> []" "length fence = 3"
  by (simp_all add: fence_def)

lemma find_first_split: "find_first pat s = Some (b, c) \<Longrightarrow> s = b @ pat @ c"
proof (induction s arbitrary: b)
  case Nil
  then show ?case by (simp split: if_splits)
next
  case (Cons x s)
  show ?case
  proof (cases "prefix pat (x # s)")
    case True
    with Cons.prems have "b = []" "c = drop (length pat) (x # s)" by auto
    with True show ?thesis by (auto simp: prefix_def)
  next
    case False
    with Cons.prems obtain a where a: "find_first pat s = Some (a, c)" "b = x # a"
      by auto
    with Cons.IH show ?thesis by simp
  qed
qed

lemma rstrip_all_space: "\<forall>c\<in>set w. isspace c \<Longrightarrow> rstrip w = []"
  by (simp add: rstrip_def)

lemma rstrip_Cons: "rstrip (x # b) = (if \<forall>c\<in>set (x # b). isspace c then [] else x # rstrip b)"
  by (auto simp: rstrip_def dropWhile_append)

lemma close_ws:
  "rx_match [GreedyStar WS, Lit fence] s =
     (if prefix fence (dropWhile isspace s) then Some [takeWhile isspace s, fence] else None)"
proof (induction s)
  case Nil
  then show ?case by (simp add: rx_steps)
next
  case (Cons x s)
  then show ?case using fence_head_not_space [of x s] by (auto simp: rx_steps)
qed


lemma find_first_after_space:
  "prefix fence (dropWhile isspace s) \<Longrightarrow>
   find_first fence s = Some (takeWhile isspace s, drop 3 (dropWhile isspace s))"
proof (induction s)
  case Nil
  then show ?case by simp
next
  case (Cons x s)
  show ?case
  proof (cases "isspace x")
    case True
    then have "\<not> prefix fence (x # s)" using fence_head_not_space by blast
    with True Cons show ?thesis by simp
  next
    case False
    with Cons.prems show ?thesis by simp
  qed
qed


lemma lazy_step:
  "rx_match [LazyStar ANY, GreedyStar WS, Lit fence] (x # s) =
     (if prefix fence (dropWhile isspace (x # s))
      then Some [[], takeWhile isspace (x # s), fence]
      else push_char x (rx_match [LazyStar ANY, GreedyStar WS, Lit fence] s))"
  by (simp add: rx_match_Lazy_Cons close_ws del: dropWhile.simps takeWhile.simps)

lemma lazy_close:
  "rx_match [LazyStar ANY, GreedyStar WS, Lit fence] s =
     (case find_first fence s of
        None \<Rightarrow> None
      | Some (b, c) \<Rightarrow> Some [rstrip b, drop (length (rstrip b)) b, fence])"
proof (induction s)
  case Nil
  then show ?case by (simp add: rx_match_Lazy_Nil close_ws)
next
  case (Cons x s)
  show ?case
  proof (cases "prefix fence (dropWhile isspace (x # s))")
    case True
    have "rstrip (takeWhile isspace (x # s)) = []"
      by (rule rstrip_all_space) (auto dest: set_takeWhileD)
    with find_first_after_space [OF True] True show ?thesis
      by (simp only: lazy_step) simp
  next
    case False
    have np: "\<not> prefix fence (x # s)"
      using False fence_head_not_space [of x s] by auto
    show ?thesis
    proof (cases "find_first fence s")
      case None
      with False np Cons.IH show ?thesis
        by (simp only: lazy_step) simp
    next
      case (Some p)
      obtain b c where p: "p = (b, c)" by (cases p)
      from Some p have s: "s = b @ fence @ c" by (simp add: find_first_split)
      have "\<not> (\<forall>c\<in>set (x # b). isspace c)"
      proof
        assume a: "\<forall>c\<in>set (x # b). isspace c"
        have "dropWhile isspace (x # s) = dropWhile isspace ((x # b) @ fence @ c)"
          using s by simp
        also have "\<dots> = dropWhile isspace (fence @ c)"
          using a by (simp only: dropWhile_append) simp
        also have "\<dots> = fence @ c"
          by (simp add: fence_def isspace_def)
        finally show False using False by simp
      qed
      then have "rstrip (x # b) = x # rstrip b" by (simp add: rstrip_Cons)
      with Some p False np Cons.IH show ?thesis
        by (simp only: lazy_step) simp
    qed
  qed
qed


lemma find_first_lstrip:
  "find_first fence (lstrip s) = map_option (\<lambda>(b, c). (lstrip b, c)) (find_first fence s)"
proof (induction s)
  case Nil
  then show ?case by (simp add: lstrip_def)
next
  case (Cons x s)
  show ?case
  proof (cases "isspace x")
    case True
    then have "\<not> prefix fence (x # s)" using fence_head_not_space by blast
    with True Cons show ?thesis
      by (cases "find_first fence s") (auto simp: lstrip_def)
  next
    case False
    then show ?thesis
      by (cases "find_first fence s") (auto simp: lstrip_def)
  qed
qed

lemma find_first_untag:
  "find_first fence (untag s) = map_option (\<lambda>(b, c). (untag b, c)) (find_first fence s)"
proof (cases "prefix ''json'' s")
  case True
  then obtain t where s: "s = ''json'' @ t" by (auto simp: prefix_def)
  show ?thesis
    by (cases "find_first fence t") (auto simp: s untag_def fence_def)
next
  case False
  have "\<not> prefix ''json'' b" if "find_first fence s = Some (b, c)" for b c
  proof
    assume "prefix ''json'' b"
    moreover have "prefix b s" using find_first_split [OF that] by simp
    ultimately show False using False by (meson prefix_order.trans)
  qed
  with False show ?thesis
    by (cases "find_first fence s") (auto simp: untag_def)
qed

lemma open_ws:
  "rx_match (GreedyStar WS # [LazyStar ANY, GreedyStar WS, Lit fence]) s =
     map_option (Cons (takeWhile isspace s))
       (rx_match [LazyStar ANY, GreedyStar WS, Lit fence] (lstrip s))"
proof (induction s)
  case Nil
  then show ?case by (simp add: rx_match_Greedy_Nil lstrip_def)
next
  case (Cons x s)
  show ?case
  proof (cases "isspace x")
    case True
    note sp = this
    show ?thesis
    proof (cases "find_first fence s")
      case None
      then have a: "find_first fence (lstrip s) = None" "find_first fence (x # s) = None"
        using fence_head_not_space [of x s] sp by (auto simp: find_first_lstrip)
      then have "rx_match [LazyStar ANY, GreedyStar WS, Lit fence] (lstrip s) = None"
        "rx_match [LazyStar ANY, GreedyStar WS, Lit fence] (x # s) = None"
        by (simp_all only: lazy_close option.case)
      with sp Cons.IH show ?thesis
        by (simp add: rx_match_Greedy_Cons lstrip_def)
    next
      case (Some p)
      then obtain cs where "rx_match [LazyStar ANY, GreedyStar WS, Lit fence] (lstrip s) = Some cs"
        by (cases p) (simp add: lazy_close find_first_lstrip)
      with sp Cons.IH show ?thesis
        by (simp add: rx_match_Greedy_Cons lstrip_def)
    qed
  next
    case False
    then show ?thesis by (simp add: rx_match_Greedy_Cons lstrip_def)
  qed
qed


lemma rx_match_Opt:
  "rx_match (OptLit l # r) s =
     (case (if prefix l s then map_option (Cons l) (rx_match r (drop (length l) s)) else None) of
        Some cs \<Rightarrow> Some cs
      | None \<Rightarrow> map_option (Cons []) (rx_match r s))"
  by (subst rx_match.simps) simp

lemma body_ws:
  "rx_match [GreedyStar WS, LazyStar ANY, GreedyStar WS, Lit fence] u =
     (case find_first fence u of
        None \<Rightarrow> None
      | Some (b, c) \<Rightarrow>
          Some [takeWhile isspace u, strip b, drop (length (strip b)) (lstrip b), fence])"
  by (cases "find_first fence u")
    (auto simp: open_ws lazy_close find_first_lstrip strip_def)

lemma body_tagged:
  "map_option (\<lambda>cs. cs ! 2)
     (rx_match [OptLit ''json'', GreedyStar WS, LazyStar ANY, GreedyStar WS, Lit fence] t) =
   map_option (\<lambda>(b, c). strip (untag b)) (find_first fence t)"
proof (cases "prefix ''json'' t")
  case True
  then have u: "untag t = drop (length ''json'') t" by (simp add: untag_def)
  show ?thesis
  proof (cases "find_first fence t")
    case None
    then have "find_first fence (drop (length ''json'') t) = None"
      using find_first_untag [of t] u by simp
    with None True show ?thesis
      by (simp add: rx_match_Opt body_ws)
  next
    case (Some p)
    obtain b c where p: "p = (b, c)" by (cases p)
    with Some have "find_first fence (drop (length ''json'') t) = Some (untag b, c)"
      using find_first_untag [of t] u by simp
    with Some p True show ?thesis
      by (simp add: rx_match_Opt body_ws)
  qed
next
  case False
  then have u: "untag t = t" by (simp add: untag_def)
  show ?thesis
  proof (cases "find_first fence t")
    case None
    with False show ?thesis by (simp add: rx_match_Opt body_ws)
  next
    case (Some p)
    obtain b c where p: "p = (b, c)" by (cases p)
    with Some have "untag b = b"
      using find_first_untag [of t] u by simp
    with Some p False show ?thesis
      by (simp add: rx_match_Opt body_ws)
  qed
qed

lemma fence_rx_match:
  "map_option (\<lambda>cs. cs ! 3) (rx_match fence_rx s) =
     (if prefix fence s
      then map_option (\<lambda>(b, c). strip (untag b)) (find_first fence (drop 3 s))
      else None)"
proof (cases "prefix fence s")
  case True
  have "map_option (\<lambda>cs. cs ! 3) (rx_match fence_rx s) =
        map_option (\<lambda>cs. cs ! 2)
          (rx_match [OptLit ''json'', GreedyStar WS, LazyStar ANY, GreedyStar WS, Lit fence] (drop 3 s))"
    using True by (simp add: fence_rx_def rx_match_Lit option.map_comp comp_def)
  with True show ?thesis by (simp only: body_tagged if_True)
next
  case False
  then show ?thesis by (simp add: fence_rx_def rx_match_Lit)
qed

lemma find_first_None_tl: "find_first p (x # s) = None \<Longrightarrow> find_first p s = None"
  by (simp split: if_splits)

lemma find_first_None_drop: "find_first p s = None \<Longrightarrow> find_first p (drop n s) = None"
proof (induction s arbitrary: n)
  case Nil
  then show ?case by simp
next
  case (Cons x s)
  then show ?case
    by (cases n) (auto dest: find_first_None_tl simp del: find_first.simps)
qed

lemma fence_search_None:
  "find_first fence (drop 3 s) = None \<Longrightarrow> rx_search fence_rx s = None"
proof (induction s)
  case Nil
  then show ?case using fence_rx_match [of "[]"] by simp
next
  case (Cons x s)
  from Cons.prems have "find_first fence (drop 1 (drop 3 (x # s))) = None"
    by (rule find_first_None_drop)
  then have "find_first fence (drop 3 s) = None" by (simp add: numeral_3_eq_3)
  then have "rx_search fence_rx s = None" by (rule Cons.IH)
  moreover have "rx_match fence_rx (x # s) = None"
    using fence_rx_match [of "x # s"] Cons.prems by (simp split: if_splits)
  ultimately show ?case by simp
qed

lemma fence_search:
  "map_option (\<lambda>cs. cs ! 3) (rx_search fence_rx s) =
   map_option (\<lambda>b. strip (untag b)) (fenced_block s)"
proof (induction s)
  case Nil
  then show ?case using fence_rx_match [of "[]"] by (simp add: fenced_block_def)
next
  case (Cons x s)
  show ?case
  proof (cases "prefix fence (x # s)")
    case True
    then have fb: "fenced_block (x # s) = map_option fst (find_first fence (drop 3 (x # s)))"
      by (simp add: fenced_block_def)
    show ?thesis
    proof (cases "find_first fence (drop 3 (x # s))")
      case None
      then have "rx_search fence_rx (x # s) = None" by (rule fence_search_None)
      with None fb show ?thesis by simp
    next
      case (Some p)
      obtain b c where p: "p = (b, c)" by (cases p)
      with Some True fence_rx_match [of "x # s"]
      obtain cs where cs: "rx_match fence_rx (x # s) = Some cs" "cs ! 3 = strip (untag b)"
        by auto
      with Some p fb show ?thesis by simp
    qed
  next
    case False
    then have "rx_match fence_rx (x # s) = None"
      using fence_rx_match [of "x # s"] by simp
    moreover have "fenced_block (x # s) = fenced_block s"
      using False by (cases "find_first fence s") (auto simp: fenced_block_def)
    ultimately show ?thesis using Cons.IH by simp
  qed
qed


lemma upto_last_Cons:
  "upto_last c (x # t) = (if c \<in> set t then x # upto_last c t else if x = c then [c] else [])"
  by (auto simp: upto_last_def dropWhile_append)

lemma greedy_to_brace:
  "rx_match [GreedyStar ANY, Lit ''}''] t =
     (if CHR ''}'' \<in> set t then Some [butlast (upto_last CHR ''}'' t), ''}''] else None)"
proof (induction t)
  case Nil
  then show ?case by (simp add: rx_steps)
next
  case (Cons x t)
  have ne: "upto_last CHR ''}'' t \<noteq> []" if "CHR ''}'' \<in> set t"
    using that by (auto simp: upto_last_def dropWhile_eq_Nil_conv)
  show ?case
  proof (cases "CHR ''}'' \<in> set t")
    case True
    with Cons.IH ne show ?thesis
      by (simp add: rx_match_Greedy_Cons upto_last_Cons)
  next
    case False
    with Cons.IH show ?thesis
      by (auto simp: rx_match_Greedy_Cons rx_match_Lit rx_match_Nil upto_last_Cons)
  qed
qed

lemma upto_last_snoc: "c \<in> set t \<Longrightarrow> butlast (upto_last c t) @ [c] = upto_last c t"
proof (induction t)
  case Nil
  then show ?case by simp
next
  case (Cons x t)
  have ne: "upto_last c t \<noteq> []" if "c \<in> set t"
    using that by (auto simp: upto_last_def dropWhile_eq_Nil_conv)
  from Cons ne show ?case
    by (auto simp: upto_last_Cons)
qed

lemma brace_rx_match:
  "map_option concat (rx_match brace_rx s) =
     (case s of
        [] \<Rightarrow> None
      | x # t \<Rightarrow>
          if x = CHR ''{'' \<and> CHR ''}'' \<in> set t then Some (CHR ''{'' # upto_last CHR ''}'' t)
          else None)"
proof (cases s)
  case Nil
  then show ?thesis by (simp add: brace_rx_def rx_match_Lit)
next
  case (Cons x t)
  then show ?thesis
    using upto_last_snoc [of "CHR ''}''" t]
    by (simp add: brace_rx_def rx_match_Lit greedy_to_brace)
qed

lemma brace_span_None: "CHR ''}'' \<notin> set s \<Longrightarrow> brace_span s = None"
proof (cases "find_first ''{'' s")
  case None
  then show ?thesis by (simp add: brace_span_def)
next
  case (Some p)
  obtain a rest where p: "p = (a, rest)" by (cases p)
  assume n: "CHR ''}'' \<notin> set s"
  from Some p have "s = a @ ''{'' @ rest" using find_first_split [of "''{''" s a rest] by simp
  with n have "CHR ''}'' \<notin> set rest" by auto
  with Some p show ?thesis by (simp add: brace_span_def)
qed

lemma brace_search:
  "map_option concat (rx_search brace_rx s) = brace_span s"
proof (induction s)
  case Nil
  then show ?case using brace_rx_match [of "[]"] by (simp add: brace_span_def)
next
  case (Cons x s)
  show ?case
  proof (cases "x = CHR ''{''")
    case True
    note x = this
    show ?thesis
    proof (cases "CHR ''}'' \<in> set s")
      case True
      with x brace_rx_match [of "x # s"]
      obtain cs where "rx_match brace_rx (x # s) = Some cs"
        "concat cs = CHR ''{'' # upto_last CHR ''}'' s"
        by auto
      with x True show ?thesis by (simp add: brace_span_def)
    next
      case False
      with x brace_rx_match [of "x # s"] have "rx_match brace_rx (x # s) = None" by simp
      moreover from False have "brace_span s = None" by (rule brace_span_None)
      moreover from False x have "brace_span (x # s) = None" by (simp add: brace_span_def)
      ultimately show ?thesis using Cons.IH by simp
    qed
  next
    case False
    with brace_rx_match [of "x # s"] have "rx_match brace_rx (x # s) = None" by simp
    moreover have "brace_span (x # s) = brace_span s"
      using False by (cases "find_first ''{'' s") (auto simp: brace_span_def)
    ultimately show ?thesis using Cons.IH by simp
  qed
qed

text \<open>
  Claim C1. For every input text, \<open>_extract_json\<close> follows the priority order of the
  specification: when the text holds a fenced block (a triple backtick and a later one),
  the result is the content between the first fence and the next, without an opening
  \<open>json\<close> tag and with the surrounding whitespace trimmed; otherwise, when some \<open>}\<close>
  follows the first \<open>{\<close>, the result runs from the first \<open>{\<close> through the last
  \<open>}\<close>; otherwise the result is the input itself. The regular-expression search of the
  source and the specification's description compute the same string.
\<close>

theorem extract_json_priority: "extract_json s = extract_json_spec s"
proof (cases "fenced_block s")
  case None
  with fence_search [of s] have f: "rx_search fence_rx s = None" by simp
  show ?thesis
  proof (cases "brace_span s")
    case None
    with brace_search [of s] have "rx_search brace_rx s = None" by simp
    with f None \<open>fenced_block s = None\<close> show ?thesis
      by (simp add: extract_json_def extract_json_spec_def)
  next
    case (Some t)
    with brace_search [of s] obtain cs where "rx_search brace_rx s = Some cs" "concat cs = t"
      by auto
    with f Some \<open>fenced_block s = None\<close> show ?thesis
      by (simp add: extract_json_def extract_json_spec_def)
  qed
next
  case (Some b)
  with fence_search [of s] obtain cs where "rx_search fence_rx s = Some cs"
    "cs ! 3 = strip (untag b)"
    by auto
  with Some show ?thesis
    by (simp add: extract_json_def extract_json_spec_def)
qed

text \<open>The three examples of the specification, obtained from the theorem.\<close>

theorem extract_json_examples:
  \<open>extract_json ex_fenced = ''{"a":1}'' \<and>
   extract_json ex_braces = ''{"a":1}'' \<and>
   extract_json ex_plain = ex_plain\<close>
  using extract_json_priority [of ex_fenced] extract_json_priority [of ex_braces]
    extract_json_priority [of ex_plain]
  by (simp add: extract_json_spec_def fenced_block_def brace_span_def fence_def untag_def
      strip_def lstrip_def rstrip_def upto_last_def isspace_def ex_fenced_def ex_braces_def
      ex_plain_def)

section \<open>The web search client\<close>

text \<open>The combinators of Python computations, unfolded together.\<close>

lemmas py_defs = return_py_def lift_def call_def bind_py_def try_except_def

lemma format_results_length: "format_results items = Inr rs \<Longrightarrow> length rs = length items"
  by (induction items arbitrary: rs) (auto split: sum.splits)

lemma slice_items_length:
  "slice_items v n = Inr items \<Longrightarrow> 0 \<le> n \<Longrightarrow> length items \<le> nat n"
  by (auto simp: slice_items_def py_slice_to_def split: json.splits)

lemma search_web_cases:
  "search_web sv q n tr =
     (case serp_run sv q of
        Inl e \<Rightarrow> (Inr [], tr @ [SerpRun q])
      | Inr raw \<Rightarrow>
          (case serp_get_dict sv q n of
             Inl e \<Rightarrow> (Inr [], tr @ [SerpRun q, SerpGetDict q n])
           | Inr results \<Rightarrow>
               (case map_of results ''organic_results'' of
                  None \<Rightarrow> (Inr [], tr @ [SerpRun q, SerpGetDict q n])
                | Some organic \<Rightarrow>
                    (case slice_items organic n of
                       Inl e \<Rightarrow> (Inr [], tr @ [SerpRun q, SerpGetDict q n])
                     | Inr items \<Rightarrow>
                         (case format_results items of
                            Inl e \<Rightarrow> (Inr [], tr @ [SerpRun q, SerpGetDict q n])
                          | Inr rs \<Rightarrow> (Inr rs, tr @ [SerpRun q, SerpGetDict q n]))))))"
  by (auto simp: search_web_def py_defs py_getitem_def split: sum.splits option.splits)

text \<open>
  Claim C5. For every query and every \<open>num_results\<close> from 1 to 10, \<open>search_web\<close> returns a
  list of at most \<open>num_results\<close> entries, and it never raises: when \<open>SerpAPIWrapper.run\<close>
  raises, when \<open>get_dict\<close> raises, or when the payload has no \<open>organic_results\<close> field (the
  error payload of the provider is such a payload), the result is the empty list.
\<close>

theorem search_web_bounded:
  "\<exists>rs tr'. search_web sv q n tr = (Inr rs, tr') \<and>
     (1 \<le> n \<and> n \<le> 10 \<longrightarrow> int (length rs) \<le> n) \<and>
     ((\<exists>e. serp_run sv q = Inl e) \<longrightarrow> rs = []) \<and>
     ((\<exists>e. serp_get_dict sv q n = Inl e) \<longrightarrow> rs = []) \<and>
     (\<forall>results. serp_get_dict sv q n = Inr results \<and> map_of results ''organic_results'' = None
        \<longrightarrow> rs = [])"
  by (auto simp: search_web_cases split: sum.splits option.splits
      dest!: format_results_length slice_items_length)


text \<open>A run with two results asked for, and the three failures.\<close>

theorem search_web_bounded_witness:
  "(1::int) \<le> 2 \<and> (2::int) \<le> 10 \<and>
   search_web sample_services ''q'' 2 [] =
     (Inr [search_result_of [(''title'', JStr ''A''), (''snippet'', JStr ''a''), (''link'', JStr ''http://a'')],
           search_result_of [(''title'', JStr ''B''), (''link'', JStr ''http://b'')]],
      [SerpRun ''q'', SerpGetDict ''q'' 2]) \<and>
   fst (search_web (sample_services\<lparr>serp_run := \<lambda>q. Inl (Exn ''timed out'')\<rparr>) ''q'' 2 []) = Inr [] \<and>
   fst (search_web (sample_services\<lparr>serp_get_dict := \<lambda>q n. Inl (Exn ''timed out'')\<rparr>) ''q'' 2 []) = Inr [] \<and>
   fst (search_web (sample_services\<lparr>serp_get_dict := \<lambda>q n. Inr [(''error'', JStr ''Invalid API key.'')]\<rparr>)
          ''q'' 2 []) = Inr []"
  using search_web_bounded [of sample_services "''q''" 2 "[]"]
    search_web_bounded [of "sample_services\<lparr>serp_run := \<lambda>q. Inl (Exn ''timed out'')\<rparr>" "''q''" 2 "[]"]
    search_web_bounded [of "sample_services\<lparr>serp_get_dict := \<lambda>q n. Inl (Exn ''timed out'')\<rparr>" "''q''" 2 "[]"]
    search_web_bounded [of "sample_services\<lparr>serp_get_dict := \<lambda>q n. Inr [(''error'', JStr ''Invalid API key.'')]\<rparr>"
      "''q''" 2 "[]"]
  by (simp add: search_web_cases sample_services_def sample_results_def slice_items_def
      py_slice_to_def format_result_def py_get_def search_result_of_def)

section \<open>The entries of the search results\<close>

lemma format_result_eq: "format_result r = Inr x \<Longrightarrow> \<exists>d. r = JObj d \<and> x = search_result_of d"
  by (auto simp: format_result_def py_get_def search_result_of_def split: json.splits)

lemma format_results_elems:
  "format_results items = Inr rs \<Longrightarrow> r \<in> set rs \<Longrightarrow>
   \<exists>d. JObj d \<in> set items \<and> r = search_result_of d"
proof (induction items arbitrary: rs)
  case Nil
  then show ?case by simp
next
  case (Cons item items)
  from Cons.prems(1) obtain x xs where
    x: "format_result item = Inr x" and xs: "format_results items = Inr xs" and rs: "rs = x # xs"
    by (auto split: sum.splits)
  from Cons.prems(2) rs consider "r = x" | "r \<in> set xs" by auto
  then show ?case
  proof cases
    case 1
    with format_result_eq [OF x] show ?thesis by auto
  next
    case 2
    with Cons.IH [OF xs] show ?thesis by auto
  qed
qed

lemma slice_items_elems:
  "slice_items v n = Inr items \<Longrightarrow> JObj d \<in> set items \<Longrightarrow> \<exists>xs. v = JArr xs \<and> JObj d \<in> set xs"
  by (auto simp: slice_items_def py_slice_to_def split: json.splits if_splits dest: in_set_takeD)

text \<open>
  Every entry returned by \<open>search_web\<close> is the dictionary literal of the loop, built from
  one organic result of the provider.
\<close>

lemma search_result_entries:
  assumes "search_web sv q n tr = (Inr rs, tr')" and "r \<in> set rs"
  shows "\<exists>results items d.
           serp_get_dict sv q n = Inr results \<and>
           map_of results ''organic_results'' = Some (JArr items) \<and>
           JObj d \<in> set items \<and>
           r = JObj [(''title'', case map_of d ''title'' of Some x \<Rightarrow> x | None \<Rightarrow> JStr []),
                     (''snippet'', case map_of d ''snippet'' of Some x \<Rightarrow> x | None \<Rightarrow> JStr []),
                     (''link'', case map_of d ''link'' of Some x \<Rightarrow> x | None \<Rightarrow> JStr [])]"
proof -
  from assms obtain raw results organic items where
    a: "serp_get_dict sv q n = Inr results" "map_of results ''organic_results'' = Some organic"
       "slice_items organic n = Inr items" "format_results items = Inr rs"
    by (auto simp: search_web_cases split: sum.splits option.splits)
  from format_results_elems [OF a(4) assms(2)] obtain d where
    d: "JObj d \<in> set items" "r = search_result_of d" by auto
  from slice_items_elems [OF a(3) d(1)] obtain xs where "organic = JArr xs" "JObj d \<in> set xs"
    by auto
  with a d show ?thesis by (auto simp: search_result_of_def)
qed

text \<open>
  Claim C7, as amended. Every entry returned by \<open>search_web\<close> is a dictionary with exactly
  the keys \<open>title\<close>, \<open>snippet\<close> and \<open>link\<close>. When the values that the provider's organic
  results give for these keys are strings, each value of the entry is a string: the
  provider's string, and the empty string for a key the provider left out; no \<open>None\<close> is
  among them.
\<close>

theorem search_result_string_fields:
  assumes "search_web sv q n tr = (Inr rs, tr')" and "r \<in> set rs"
    and "serp_get_dict sv q n = Inr results"
    and "map_of results ''organic_results'' = Some (JArr items)"
    and "\<forall>d k v. JObj d \<in> set items \<and> k \<in> {''title'', ''snippet'', ''link''} \<and>
           map_of d k = Some v \<longrightarrow> (\<exists>s. v = JStr s)"
  shows "\<exists>d t sn l.
           JObj d \<in> set items \<and>
           r = JObj [(''title'', JStr t), (''snippet'', JStr sn), (''link'', JStr l)] \<and>
           (case map_of d ''title'' of None \<Rightarrow> t = [] | Some v \<Rightarrow> v = JStr t) \<and>
           (case map_of d ''snippet'' of None \<Rightarrow> sn = [] | Some v \<Rightarrow> v = JStr sn) \<and>
           (case map_of d ''link'' of None \<Rightarrow> l = [] | Some v \<Rightarrow> v = JStr l) \<and>
           is_search_result_link r"
proof -
  from search_result_entries [OF assms(1,2)] assms(3,4) obtain d where
    d: "JObj d \<in> set items"
    and r: "r = JObj [(''title'', case map_of d ''title'' of Some x \<Rightarrow> x | None \<Rightarrow> JStr []),
                     (''snippet'', case map_of d ''snippet'' of Some x \<Rightarrow> x | None \<Rightarrow> JStr []),
                     (''link'', case map_of d ''link'' of Some x \<Rightarrow> x | None \<Rightarrow> JStr [])]"
    by auto
  have f: "\<exists>s. (case map_of d k of Some x \<Rightarrow> x | None \<Rightarrow> JStr []) = JStr s \<and>
               (case map_of d k of None \<Rightarrow> s = [] | Some v \<Rightarrow> v = JStr s)"
    if "k \<in> {''title'', ''snippet'', ''link''}" for k
    using assms(5) d that by (cases "map_of d k") auto
  from f [of "''title''"] obtain t where
    t: "(case map_of d ''title'' of Some x \<Rightarrow> x | None \<Rightarrow> JStr []) = JStr t"
       "(case map_of d ''title'' of None \<Rightarrow> t = [] | Some v \<Rightarrow> v = JStr t)"
    by auto
  from f [of "''snippet''"] obtain sn where
    sn: "(case map_of d ''snippet'' of Some x \<Rightarrow> x | None \<Rightarrow> JStr []) = JStr sn"
        "(case map_of d ''snippet'' of None \<Rightarrow> sn = [] | Some v \<Rightarrow> v = JStr sn)"
    by auto
  from f [of "''link''"] obtain l where
    l: "(case map_of d ''link'' of Some x \<Rightarrow> x | None \<Rightarrow> JStr []) = JStr l"
       "(case map_of d ''link'' of None \<Rightarrow> l = [] | Some v \<Rightarrow> v = JStr l)"
    by auto
  have r': "r = JObj [(''title'', JStr t), (''snippet'', JStr sn), (''link'', JStr l)]"
    by (simp only: r t(1) sn(1) l(1))
  have s: "is_search_result_link r"
    by (auto simp: r' is_search_result_link_def is_str_def)
  show ?thesis
    by (rule exI [of _ d], rule exI [of _ t], rule exI [of _ sn], rule exI [of _ l])
      (intro conjI, rule d, rule r', rule t(2), rule sn(2), rule l(2), rule s)
qed

text \<open>The second sample result has no snippet; its entry has the empty string there.\<close>

theorem search_result_string_fields_witness:
  "search_web sample_services ''q'' 2 [] =
     (Inr [JObj [(''title'', JStr ''A''), (''snippet'', JStr ''a''), (''link'', JStr ''http://a'')],
           JObj [(''title'', JStr ''B''), (''snippet'', JStr []), (''link'', JStr ''http://b'')]],
      [SerpRun ''q'', SerpGetDict ''q'' 2]) \<and>
   serp_get_dict sample_services ''q'' 2 = Inr sample_results \<and>
   map_of sample_results ''organic_results'' =
     Some (JArr [
        JObj [(''title'', JStr ''A''), (''snippet'', JStr ''a''), (''link'', JStr ''http://a'')],
        JObj [(''title'', JStr ''B''), (''link'', JStr ''http://b'')],
        JObj [(''title'', JStr ''C''), (''snippet'', JStr ''c''), (''link'', JStr ''http://c'')],
        JObj [(''title'', JStr ''D''), (''snippet'', JStr ''d''), (''link'', JStr ''http://d'')]]) \<and>
   is_search_result_link
     (JObj [(''title'', JStr ''B''), (''snippet'', JStr []), (''link'', JStr ''http://b'')])"
proof -
  let ?items = "[
        JObj [(''title'', JStr ''A''), (''snippet'', JStr ''a''), (''link'', JStr ''http://a'')],
        JObj [(''title'', JStr ''B''), (''link'', JStr ''http://b'')],
        JObj [(''title'', JStr ''C''), (''snippet'', JStr ''c''), (''link'', JStr ''http://c'')],
        JObj [(''title'', JStr ''D''), (''snippet'', JStr ''d''), (''link'', JStr ''http://d'')]]"
  let ?b = "JObj [(''title'', JStr ''B''), (''snippet'', JStr []), (''link'', JStr ''http://b'')]"
  have run: "search_web sample_services ''q'' 2 [] =
     (Inr [JObj [(''title'', JStr ''A''), (''snippet'', JStr ''a''), (''link'', JStr ''http://a'')], ?b],
      [SerpRun ''q'', SerpGetDict ''q'' 2])"
    by (simp add: search_web_cases sample_services_def sample_results_def slice_items_def
        py_slice_to_def format_result_def py_get_def)
  have mem: "?b \<in> set [JObj [(''title'', JStr ''A''), (''snippet'', JStr ''a''),
                             (''link'', JStr ''http://a'')], ?b]"
    by simp
  have payload: "serp_get_dict sample_services ''q'' 2 = Inr sample_results"
    by (simp add: sample_services_def)
  have organic: "map_of sample_results ''organic_results'' = Some (JArr ?items)"
    by (simp add: sample_results_def)
  have strs: "\<forall>d k v. JObj d \<in> set ?items \<and> k \<in> {''title'', ''snippet'', ''link''} \<and>
      map_of d k = Some v \<longrightarrow> (\<exists>s. v = JStr s)"
    by (auto split: if_splits)
  from search_result_string_fields [OF run mem payload organic strs]
  have "is_search_result_link ?b" by blast
  with run payload organic show ?thesis by (intro conjI)
qed

text \<open>
  Claim C7 as the specification states it asks for the fields \<open>title\<close>, \<open>snippet\<close> and
  \<open>url\<close>, each a string for every answer of the provider. The entry returned for the first
  sample result has the key \<open>link\<close> and no key \<open>url\<close>; and for a provider that sends
  \<open>null\<close> as a title, the default of \<open>result.get("title", "")\<close> does not apply and the
  entry holds \<open>None\<close>.
\<close>

theorem search_result_counterexample:
  "search_web sample_services ''q'' 1 [] =
     (Inr [JObj [(''title'', JStr ''A''), (''snippet'', JStr ''a''), (''link'', JStr ''http://a'')]],
      [SerpRun ''q'', SerpGetDict ''q'' 1]) \<and>
   \<not> is_search_result_spec
       (JObj [(''title'', JStr ''A''), (''snippet'', JStr ''a''), (''link'', JStr ''http://a'')]) \<and>
   is_search_result_link
       (JObj [(''title'', JStr ''A''), (''snippet'', JStr ''a''), (''link'', JStr ''http://a'')]) \<and>
   search_web null_title_services ''q'' 1 [] =
     (Inr [JObj [(''title'', JNull), (''snippet'', JStr ''a''), (''link'', JStr ''http://a'')]],
      [SerpRun ''q'', SerpGetDict ''q'' 1]) \<and>
   \<not> is_search_result_link
       (JObj [(''title'', JNull), (''snippet'', JStr ''a''), (''link'', JStr ''http://a'')])"
  by (simp add: search_web_cases sample_services_def sample_results_def slice_items_def
      py_slice_to_def format_result_def py_get_def is_search_result_spec_def is_str_def
      is_search_result_link_def null_title_services_def)

section \<open>The HTML content extractor\<close>

lemma fetch_article_content_eq:
  "fetch_article_content sv u tr = (Inr (fetched sv u), tr @ [HttpGet u])"
  by (simp add: fetch_article_content_def fetched_def py_defs split: sum.splits)

lemma soup_text_length: "length (soup_text soup) \<le> 8000"
  by (simp add: soup_text_def Let_def)

lemma fetched_length: "length (fetched sv u) \<le> 8000"
  by (simp add: fetched_def soup_text_length split: sum.splits)

text \<open>
  Claim C8. For every parsed page the extracted text has at most 8000 characters, and so
  has the text that \<open>fetch_article_content\<close> returns for every address, whatever the
  request and the parser do.
\<close>

theorem html_text_bounded:
  "length (soup_text soup) \<le> 8000 \<and>
   (\<exists>t tr'. fetch_article_content sv u tr = (Inr t, tr') \<and> length t \<le> 8000)"
  by (simp add: soup_text_length fetch_article_content_eq fetched_length)

lemma extract_tags_same:
  "same_outside names a b \<Longrightarrow> extract_tags names a = extract_tags names b"
proof (induction rule: same_outside.induct)
  case (so_tag cs ds n)
  then have "list_all2 (\<lambda>x y. extract_tags names x = extract_tags names y) cs ds"
    by (simp add: list_all2_conv_all_nth)
  then have "map (extract_tags names) cs = map (extract_tags names) ds"
    by (induction rule: list_all2_induct) simp_all
  then show ?case by simp
qed simp_all

lemma extract_all_same:
  "list_all2 (same_outside names) soup soup' \<Longrightarrow>
   map (extract_tags names) soup = map (extract_tags names) soup'"
  by (induction rule: list_all2_induct) (simp_all add: extract_tags_same)

text \<open>
  Claim C9. The text inside \<open>script\<close>, \<open>style\<close>, \<open>nav\<close>, \<open>footer\<close> and \<open>header\<close>
  elements, at any depth of their subtrees, does not reach the output: two pages that differ
  only in what stands inside such elements give the same text.
\<close>

theorem removed_elements_discarded:
  "list_all2 (same_outside removed_tags) soup soup' \<Longrightarrow> soup_text soup = soup_text soup'"
  by (simp add: soup_text_def extract_all_same)

lemma sample_page_text: "soup_text sample_page = ''Hello\<newline>world''"
  by (simp add: soup_text_def sample_page_def removed_tags_def splitlines_def
      split_two_spaces_def strip_def lstrip_def rstrip_def isspace_def is_linebreak_def)

text \<open>The sample page and the same page with other contents in its header and its script.\<close>

theorem removed_elements_discarded_witness:
  "list_all2 (same_outside removed_tags) sample_page
     [Tag ''html'' [Tag ''header'' [], Tag ''script'' [NavigableString ''other''],
                    Tag ''p'' [NavigableString ''Hello  world'']]] \<and>
   soup_text [Tag ''html'' [Tag ''header'' [], Tag ''script'' [NavigableString ''other''],
                            Tag ''p'' [NavigableString ''Hello  world'']]] = ''Hello\<newline>world''"
proof -
  have rel: "list_all2 (same_outside removed_tags) sample_page
     [Tag ''html'' [Tag ''header'' [], Tag ''script'' [NavigableString ''other''],
                    Tag ''p'' [NavigableString ''Hello  world'']]]"
    unfolding sample_page_def
    by (intro list_all2_Cons [THEN iffD2] conjI so_tag so_string list.rel_intros
        so_removed [of "''header''"] so_removed [of "''script''"])
      (simp_all add: removed_tags_def)
  from removed_elements_discarded [OF rel] sample_page_text rel show ?thesis by simp
qed


section \<open>The knowledge tree builder\<close>

lemma extract_json_plain: "extract_json ''I cannot help'' = ''I cannot help''"
  by code_simp

lemma generate_knowledge_tree_cases:
  "generate_knowledge_tree sv topic content tr =
     (case prompt_format sv TreeTemplate [(''topic'', topic), (''content'', content)] of
        Inl e \<Rightarrow> (Inr (fallback_tree topic e), tr)
      | Inr p \<Rightarrow>
          (case tree_model sv p of
             Inl e \<Rightarrow> (Inr (fallback_tree topic e), tr @ [TreeLlm p])
           | Inr c \<Rightarrow>
               (case extract_json_of c of
                  Inl e \<Rightarrow> (Inr (fallback_tree topic e), tr @ [TreeLlm p])
                | Inr js \<Rightarrow>
                    (case json_loads sv js of
                       Inl e \<Rightarrow> (Inr (fallback_tree topic e), tr @ [TreeLlm p])
                     | Inr v \<Rightarrow> (Inr v, tr @ [TreeLlm p])))))"
  by (simp add: generate_knowledge_tree_def py_defs split: sum.splits)

lemma fallback_tree_shape: "is_knowledge_tree (fallback_tree topic e)"
  by (simp add: is_knowledge_tree_def is_subtopic_def is_key_point_def is_str_def fallback_tree_def)

text \<open>
  Claim C3. \<open>generate_knowledge_tree\<close> never raises. When the rendering of the prompt, the
  call of the model, the extraction of the JSON text or \<open>json.loads\<close> raises \<open>e\<close>, the
  result is exactly the fallback structure: the given topic and one subtopic
  \<open>Error generating knowledge tree\<close> with one key point \<open>Error\<close> whose explanation ends
  with \<open>str(e)\<close>. The fallback has the shape of a knowledge tree.
\<close>

theorem generate_knowledge_tree_fallback:
  "(\<exists>tree tr'. generate_knowledge_tree sv topic content tr = (Inr tree, tr')) \<and>
   (\<forall>e. prompt_format sv TreeTemplate [(''topic'', topic), (''content'', content)] = Inl e \<longrightarrow>
      fst (generate_knowledge_tree sv topic content tr) = Inr (fallback_tree topic e)) \<and>
   (\<forall>p e. prompt_format sv TreeTemplate [(''topic'', topic), (''content'', content)] = Inr p \<and>
      tree_model sv p = Inl e \<longrightarrow>
      fst (generate_knowledge_tree sv topic content tr) = Inr (fallback_tree topic e)) \<and>
   (\<forall>p c e. prompt_format sv TreeTemplate [(''topic'', topic), (''content'', content)] = Inr p \<and>
      tree_model sv p = Inr c \<and> extract_json_of c = Inl e \<longrightarrow>
      fst (generate_knowledge_tree sv topic content tr) = Inr (fallback_tree topic e)) \<and>
   (\<forall>p c js e. prompt_format sv TreeTemplate [(''topic'', topic), (''content'', content)] = Inr p \<and>
      tree_model sv p = Inr c \<and> extract_json_of c = Inr js \<and> json_loads sv js = Inl e \<longrightarrow>
      fst (generate_knowledge_tree sv topic content tr) = Inr (fallback_tree topic e)) \<and>
   (\<forall>e. fallback_tree topic e =
      JObj [(''topic'', JStr topic),
            (''subtopics'', JArr [
               JObj [(''name'', JStr ''Error generating knowledge tree''),
                     (''key_points'', JArr [
                        JObj [(''point'', JStr ''Error''),
                              (''explanation'',
                               JStr (''Failed to generate knowledge tree: '' @ message e))]])]])] \<and>
      suffix (message e) (''Failed to generate knowledge tree: '' @ message e) \<and>
      is_knowledge_tree (fallback_tree topic e))"
proof -
  have total: "\<exists>tree tr'. generate_knowledge_tree sv topic content tr = (Inr tree, tr')"
    by (simp add: generate_knowledge_tree_cases split: sum.splits)
  have f1: "\<forall>e. prompt_format sv TreeTemplate [(''topic'', topic), (''content'', content)] = Inl e \<longrightarrow>
      fst (generate_knowledge_tree sv topic content tr) = Inr (fallback_tree topic e)"
    by (simp add: generate_knowledge_tree_cases)
  have f2: "\<forall>p e. prompt_format sv TreeTemplate [(''topic'', topic), (''content'', content)] = Inr p \<and>
      tree_model sv p = Inl e \<longrightarrow>
      fst (generate_knowledge_tree sv topic content tr) = Inr (fallback_tree topic e)"
    by (simp add: generate_knowledge_tree_cases)
  have f3: "\<forall>p c e. prompt_format sv TreeTemplate [(''topic'', topic), (''content'', content)] = Inr p \<and>
      tree_model sv p = Inr c \<and> extract_json_of c = Inl e \<longrightarrow>
      fst (generate_knowledge_tree sv topic content tr) = Inr (fallback_tree topic e)"
    by (simp add: generate_knowledge_tree_cases)
  have f4: "\<forall>p c js e. prompt_format sv TreeTemplate [(''topic'', topic), (''content'', content)] = Inr p \<and>
      tree_model sv p = Inr c \<and> extract_json_of c = Inr js \<and> json_loads sv js = Inl e \<longrightarrow>
      fst (generate_knowledge_tree sv topic content tr) = Inr (fallback_tree topic e)"
    by (simp add: generate_knowledge_tree_cases)
  have shape: "\<forall>e. fallback_tree topic e =
      JObj [(''topic'', JStr topic),
            (''subtopics'', JArr [
               JObj [(''name'', JStr ''Error generating knowledge tree''),
                     (''key_points'', JArr [
                        JObj [(''point'', JStr ''Error''),
                              (''explanation'',
                               JStr (''Failed to generate knowledge tree: '' @ message e))]])]])] \<and>
      suffix (message e) (''Failed to generate knowledge tree: '' @ message e) \<and>
      is_knowledge_tree (fallback_tree topic e)"
    using fallback_tree_shape by (simp add: fallback_tree_def suffix_def)
  show ?thesis
    by (intro conjI total f1 f2 f3 f4 shape)
qed

text \<open>
  Four runs, one for each step that can fail: a template that cannot be rendered, a model
  that raises, an answer that is not a string, and an answer that is not JSON.
\<close>

theorem generate_knowledge_tree_fallback_witness:
  "prompt_format (sample_services\<lparr>prompt_format := \<lambda>t kw. Inl (Exn ''Missing some input keys'')\<rparr>)
     TreeTemplate [(''topic'', ''cats''), (''content'', ''text'')] = Inl (Exn ''Missing some input keys'') \<and>
   fst (generate_knowledge_tree (sample_services\<lparr>prompt_format := \<lambda>t kw. Inl (Exn ''Missing some input keys'')\<rparr>)
          ''cats'' ''text'' []) =
     Inr (fallback_tree ''cats'' (Exn ''Missing some input keys'')) \<and>
   prompt_format sample_services TreeTemplate [(''topic'', ''cats''), (''content'', ''text'')] = Inr ''prompt'' \<and>
   tree_model sample_services ''prompt'' = Inl (Exn ''quota exceeded'') \<and>
   fst (generate_knowledge_tree sample_services ''cats'' ''text'' []) =
     Inr (fallback_tree ''cats'' (Exn ''quota exceeded'')) \<and>
   tree_model (sample_services\<lparr>tree_model := \<lambda>p. Inr (JArr [])\<rparr>) ''prompt'' = Inr (JArr []) \<and>
   extract_json_of (JArr []) = Inl (Exn ''expected string or bytes-like object'') \<and>
   fst (generate_knowledge_tree (sample_services\<lparr>tree_model := \<lambda>p. Inr (JArr [])\<rparr>)
          ''cats'' ''text'' []) =
     Inr (fallback_tree ''cats'' (Exn ''expected string or bytes-like object'')) \<and>
   tree_model (sample_services\<lparr>tree_model := \<lambda>p. Inr (JStr ''I cannot help'')\<rparr>) ''prompt'' =
     Inr (JStr ''I cannot help'') \<and>
   extract_json_of (JStr ''I cannot help'') = Inr ''I cannot help'' \<and>
   json_loads sample_services ''I cannot help'' = Inl (Exn ''Expecting value'') \<and>
   fst (generate_knowledge_tree (sample_services\<lparr>tree_model := \<lambda>p. Inr (JStr ''I cannot help'')\<rparr>)
          ''cats'' ''text'' []) =
     Inr (fallback_tree ''cats'' (Exn ''Expecting value''))"
proof -
  let ?P = "sample_services\<lparr>prompt_format := \<lambda>t kw. Inl (Exn ''Missing some input keys'')\<rparr>"
  let ?C = "sample_services\<lparr>tree_model := \<lambda>p. Inr (JArr [])\<rparr>"
  let ?D = "sample_services\<lparr>tree_model := \<lambda>p. Inr (JStr ''I cannot help'')\<rparr>"
  let ?kw = "[(''topic'', ''cats''), (''content'', ''text'')]"
  have p1: "prompt_format ?P TreeTemplate ?kw = Inl (Exn ''Missing some input keys'')"
    by (simp add: sample_services_def)
  have a1: "prompt_format sample_services TreeTemplate ?kw = Inr ''prompt''"
    and a2: "tree_model sample_services ''prompt'' = Inl (Exn ''quota exceeded'')"
    and a3: "json_loads sample_services ''I cannot help'' = Inl (Exn ''Expecting value'')"
    by (simp_all add: sample_services_def)
  have c1: "prompt_format ?C TreeTemplate ?kw = Inr ''prompt''"
    and c2: "tree_model ?C ''prompt'' = Inr (JArr [])"
    by (simp_all add: sample_services_def)
  have c3: "extract_json_of (JArr []) = Inl (Exn ''expected string or bytes-like object'')"
    by (simp add: extract_json_of_def)
  have d1: "prompt_format ?D TreeTemplate ?kw = Inr ''prompt''"
    and d2: "tree_model ?D ''prompt'' = Inr (JStr ''I cannot help'')"
    and d3: "json_loads ?D ''I cannot help'' = Inl (Exn ''Expecting value'')"
    by (simp_all add: sample_services_def)
  have d4: "extract_json_of (JStr ''I cannot help'') = Inr ''I cannot help''"
    by (simp add: extract_json_of_def extract_json_plain)
  have rp: "fst (generate_knowledge_tree ?P ''cats'' ''text'' []) =
      Inr (fallback_tree ''cats'' (Exn ''Missing some input keys''))"
    using generate_knowledge_tree_fallback [of ?P "''cats''" "''text''" "[]"] p1 by blast
  have ra: "fst (generate_knowledge_tree sample_services ''cats'' ''text'' []) =
      Inr (fallback_tree ''cats'' (Exn ''quota exceeded''))"
    using generate_knowledge_tree_fallback [of sample_services "''cats''" "''text''" "[]"] a1 a2 by blast
  have rc: "fst (generate_knowledge_tree ?C ''cats'' ''text'' []) =
      Inr (fallback_tree ''cats'' (Exn ''expected string or bytes-like object''))"
    using generate_knowledge_tree_fallback [of ?C "''cats''" "''text''" "[]"] c1 c2 c3 by blast
  have rd: "fst (generate_knowledge_tree ?D ''cats'' ''text'' []) =
      Inr (fallback_tree ''cats'' (Exn ''Expecting value''))"
    using generate_knowledge_tree_fallback [of ?D "''cats''" "''text''" "[]"] d1 d2 d3 d4 by blast
  from p1 rp a1 a2 ra c2 c3 rc d2 d4 a3 rd show ?thesis by (intro conjI)
qed

lemma expand_subtopic_cases:
  "expand_subtopic sv topic subtopic content tr =
     (case prompt_format sv ExpandTemplate
             [(''topic'', topic), (''subtopic'', subtopic), (''content'', content)] of
        Inl e \<Rightarrow> (Inr (fallback_expansion subtopic e), tr)
      | Inr p \<Rightarrow>
          (case tree_model sv p of
             Inl e \<Rightarrow> (Inr (fallback_expansion subtopic e), tr @ [TreeLlm p])
           | Inr c \<Rightarrow>
               (case extract_json_of c of
                  Inl e \<Rightarrow> (Inr (fallback_expansion subtopic e), tr @ [TreeLlm p])
                | Inr js \<Rightarrow>
                    (case json_loads sv js of
                       Inl e \<Rightarrow> (Inr (fallback_expansion subtopic e), tr @ [TreeLlm p])
                     | Inr v \<Rightarrow> (Inr v, tr @ [TreeLlm p])))))"
  by (simp add: expand_subtopic_def py_defs split: sum.splits)

text \<open>
  Claim C6. \<open>expand_subtopic\<close> never raises. When the rendering of the prompt, the call of
  the model, the extraction of the JSON text or \<open>json.loads\<close> raises \<open>e\<close>, the result is
  exactly the dictionary with the given subtopic name, the overview
  \<open>Failed to expand subtopic: \<close> followed by \<open>str(e)\<close>, and no aspects.
\<close>

theorem expand_subtopic_fallback:
  "(\<exists>v tr'. expand_subtopic sv topic subtopic content tr = (Inr v, tr')) \<and>
   (\<forall>e. prompt_format sv ExpandTemplate
           [(''topic'', topic), (''subtopic'', subtopic), (''content'', content)] = Inl e \<longrightarrow>
      fst (expand_subtopic sv topic subtopic content tr) = Inr (fallback_expansion subtopic e)) \<and>
   (\<forall>p e. prompt_format sv ExpandTemplate
           [(''topic'', topic), (''subtopic'', subtopic), (''content'', content)] = Inr p \<and>
      tree_model sv p = Inl e \<longrightarrow>
      fst (expand_subtopic sv topic subtopic content tr) = Inr (fallback_expansion subtopic e)) \<and>
   (\<forall>p c e. prompt_format sv ExpandTemplate
           [(''topic'', topic), (''subtopic'', subtopic), (''content'', content)] = Inr p \<and>
      tree_model sv p = Inr c \<and> extract_json_of c = Inl e \<longrightarrow>
      fst (expand_subtopic sv topic subtopic content tr) = Inr (fallback_expansion subtopic e)) \<and>
   (\<forall>p c js e. prompt_format sv ExpandTemplate
           [(''topic'', topic), (''subtopic'', subtopic), (''content'', content)] = Inr p \<and>
      tree_model sv p = Inr c \<and> extract_json_of c = Inr js \<and> json_loads sv js = Inl e \<longrightarrow>
      fst (expand_subtopic sv topic subtopic content tr) = Inr (fallback_expansion subtopic e)) \<and>
   (\<forall>e. fallback_expansion subtopic e =
      JObj [(''subtopic'', JStr subtopic),
            (''overview'', JStr (''Failed to expand subtopic: '' @ message e)),
            (''aspects'', JArr [])])"
proof -
  have total: "\<exists>v tr'. expand_subtopic sv topic subtopic content tr = (Inr v, tr')"
    by (simp add: expand_subtopic_cases split: sum.splits)
  have f1: "\<forall>e. prompt_format sv ExpandTemplate
           [(''topic'', topic), (''subtopic'', subtopic), (''content'', content)] = Inl e \<longrightarrow>
      fst (expand_subtopic sv topic subtopic content tr) = Inr (fallback_expansion subtopic e)"
    by (simp add: expand_subtopic_cases)
  have f2: "\<forall>p e. prompt_format sv ExpandTemplate
           [(''topic'', topic), (''subtopic'', subtopic), (''content'', content)] = Inr p \<and>
      tree_model sv p = Inl e \<longrightarrow>
      fst (expand_subtopic sv topic subtopic content tr) = Inr (fallback_expansion subtopic e)"
    by (simp add: expand_subtopic_cases)
  have f3: "\<forall>p c e. prompt_format sv ExpandTemplate
           [(''topic'', topic), (''subtopic'', subtopic), (''content'', content)] = Inr p \<and>
      tree_model sv p = Inr c \<and> extract_json_of c = Inl e \<longrightarrow>
      fst (expand_subtopic sv topic subtopic content tr) = Inr (fallback_expansion subtopic e)"
    by (simp add: expand_subtopic_cases)
  have f4: "\<forall>p c js e. prompt_format sv ExpandTemplate
           [(''topic'', topic), (''subtopic'', subtopic), (''content'', content)] = Inr p \<and>
      tree_model sv p = Inr c \<and> extract_json_of c = Inr js \<and> json_loads sv js = Inl e \<longrightarrow>
      fst (expand_subtopic sv topic subtopic content tr) = Inr (fallback_expansion subtopic e)"
    by (simp add: expand_subtopic_cases)
  have shape: "\<forall>e. fallback_expansion subtopic e =
      JObj [(''subtopic'', JStr subtopic),
            (''overview'', JStr (''Failed to expand subtopic: '' @ message e)),
            (''aspects'', JArr [])]"
    by (simp add: fallback_expansion_def)
  show ?thesis
    by (intro conjI total f1 f2 f3 f4 shape)
qed

text \<open>The same four failures for the expansion.\<close>

theorem expand_subtopic_fallback_witness:
  "prompt_format (sample_services\<lparr>prompt_format := \<lambda>t kw. Inl (Exn ''Missing some input keys'')\<rparr>)
     ExpandTemplate [(''topic'', ''cats''), (''subtopic'', ''Breeds''), (''content'', ''{}'')] = Inl (Exn ''Missing some input keys'') \<and>
   fst (expand_subtopic (sample_services\<lparr>prompt_format := \<lambda>t kw. Inl (Exn ''Missing some input keys'')\<rparr>)
          ''cats'' ''Breeds'' ''{}'' []) =
     Inr (fallback_expansion ''Breeds'' (Exn ''Missing some input keys'')) \<and>
   prompt_format sample_services ExpandTemplate [(''topic'', ''cats''), (''subtopic'', ''Breeds''), (''content'', ''{}'')] = Inr ''prompt'' \<and>
   tree_model sample_services ''prompt'' = Inl (Exn ''quota exceeded'') \<and>
   fst (expand_subtopic sample_services ''cats'' ''Breeds'' ''{}'' []) =
     Inr (fallback_expansion ''Breeds'' (Exn ''quota exceeded'')) \<and>
   tree_model (sample_services\<lparr>tree_model := \<lambda>p. Inr (JArr [])\<rparr>) ''prompt'' = Inr (JArr []) \<and>
   extract_json_of (JArr []) = Inl (Exn ''expected string or bytes-like object'') \<and>
   fst (expand_subtopic (sample_services\<lparr>tree_model := \<lambda>p. Inr (JArr [])\<rparr>)
          ''cats'' ''Breeds'' ''{}'' []) =
     Inr (fallback_expansion ''Breeds'' (Exn ''expected string or bytes-like object'')) \<and>
   tree_model (sample_services\<lparr>tree_model := \<lambda>p. Inr (JStr ''I cannot help'')\<rparr>) ''prompt'' =
     Inr (JStr ''I cannot help'') \<and>
   extract_json_of (JStr ''I cannot help'') = Inr ''I cannot help'' \<and>
   json_loads sample_services ''I cannot help'' = Inl (Exn ''Expecting value'') \<and>
   fst (expand_subtopic (sample_services\<lparr>tree_model := \<lambda>p. Inr (JStr ''I cannot help'')\<rparr>)
          ''cats'' ''Breeds'' ''{}'' []) =
     Inr (fallback_expansion ''Breeds'' (Exn ''Expecting value''))"
proof -
  let ?P = "sample_services\<lparr>prompt_format := \<lambda>t kw. Inl (Exn ''Missing some input keys'')\<rparr>"
  let ?C = "sample_services\<lparr>tree_model := \<lambda>p. Inr (JArr [])\<rparr>"
  let ?D = "sample_services\<lparr>tree_model := \<lambda>p. Inr (JStr ''I cannot help'')\<rparr>"
  let ?kw = "[(''topic'', ''cats''), (''subtopic'', ''Breeds''), (''content'', ''{}'')]"
  have p1: "prompt_format ?P ExpandTemplate ?kw = Inl (Exn ''Missing some input keys'')"
    by (simp add: sample_services_def)
  have a1: "prompt_format sample_services ExpandTemplate ?kw = Inr ''prompt''"
    and a2: "tree_model sample_services ''prompt'' = Inl (Exn ''quota exceeded'')"
    and a3: "json_loads sample_services ''I cannot help'' = Inl (Exn ''Expecting value'')"
    by (simp_all add: sample_services_def)
  have c1: "prompt_format ?C ExpandTemplate ?kw = Inr ''prompt''"
    and c2: "tree_model ?C ''prompt'' = Inr (JArr [])"
    by (simp_all add: sample_services_def)
  have c3: "extract_json_of (JArr []) = Inl (Exn ''expected string or bytes-like object'')"
    by (simp add: extract_json_of_def)
  have d1: "prompt_format ?D ExpandTemplate ?kw = Inr ''prompt''"
    and d2: "tree_model ?D ''prompt'' = Inr (JStr ''I cannot help'')"
    and d3: "json_loads ?D ''I cannot help'' = Inl (Exn ''Expecting value'')"
    by (simp_all add: sample_services_def)
  have d4: "extract_json_of (JStr ''I cannot help'') = Inr ''I cannot help''"
    by (simp add: extract_json_of_def extract_json_plain)
  have rp: "fst (expand_subtopic ?P ''cats'' ''Breeds'' ''{}'' []) =
      Inr (fallback_expansion ''Breeds'' (Exn ''Missing some input keys''))"
    using expand_subtopic_fallback [of ?P "''cats''" "''Breeds''" "''{}''" "[]"] p1 by blast
  have ra: "fst (expand_subtopic sample_services ''cats'' ''Breeds'' ''{}'' []) =
      Inr (fallback_expansion ''Breeds'' (Exn ''quota exceeded''))"
    using expand_subtopic_fallback [of sample_services "''cats''" "''Breeds''" "''{}''" "[]"] a1 a2 by blast
  have rc: "fst (expand_subtopic ?C ''cats'' ''Breeds'' ''{}'' []) =
      Inr (fallback_expansion ''Breeds'' (Exn ''expected string or bytes-like object''))"
    using expand_subtopic_fallback [of ?C "''cats''" "''Breeds''" "''{}''" "[]"] c1 c2 c3 by blast
  have rd: "fst (expand_subtopic ?D ''cats'' ''Breeds'' ''{}'' []) =
      Inr (fallback_expansion ''Breeds'' (Exn ''Expecting value''))"
    using expand_subtopic_fallback [of ?D "''cats''" "''Breeds''" "''{}''" "[]"] d1 d2 d3 d4 by blast
  from p1 rp a1 a2 ra c2 c3 rc d2 d4 a3 rd show ?thesis by (intro conjI)
qed


section \<open>The research pipeline of the handler\<close>

lemma fetch_calls_append: "fetch_calls (xs @ ys) = fetch_calls xs @ fetch_calls ys"
  by (induction xs rule: fetch_calls.induct) simp_all

lemma llm_calls_append: "llm_calls (xs @ ys) = llm_calls xs @ llm_calls ys"
  by (induction xs rule: llm_calls.induct) simp_all

lemma fetch_calls_gets: "fetch_calls (map (\<lambda>r. HttpGet (f r)) rs) = map f rs"
  by (induction rs) simp_all

lemma llm_calls_gets: "llm_calls (map (\<lambda>r. HttpGet (f r)) rs) = []"
  by (induction rs) simp_all

lemma search_web_calls:
  "search_web sv q n tr = (r, tr') \<Longrightarrow>
   fetch_calls tr' = fetch_calls tr \<and> llm_calls tr' = llm_calls tr"
  by (auto simp: search_web_cases fetch_calls_append llm_calls_append
      split: sum.splits option.splits)

lemma search_web_formatted:
  "search_web sv q n tr = (Inr rs, tr') \<Longrightarrow> r \<in> set rs \<Longrightarrow> \<exists>d. r = search_result_of d"
proof -
  assume a: "search_web sv q n tr = (Inr rs, tr')" and r: "r \<in> set rs"
  from a r obtain items where "format_results items = Inr rs"
    by (auto simp: search_web_cases split: sum.splits option.splits)
  from format_results_elems [OF this r] show ?thesis by blast
qed

lemma getitem_search_result:
  "py_getitem (search_result_of d) ''link'' = Inr (field (search_result_of d) ''link'')"
  "py_getitem (search_result_of d) ''title'' = Inr (field (search_result_of d) ''title'')"
  by (simp_all add: py_getitem_def field_def search_result_of_def)

lemma collect_content_eq:
  "\<forall>r\<in>set rs. \<exists>d. r = search_result_of d \<Longrightarrow>
   collect_content sv rs tr =
     (Inr (map (source_of sv) (filter (survives sv) rs)),
      tr @ map (\<lambda>r. HttpGet (field r ''link'')) rs)"
proof (induction rs arbitrary: tr)
  case Nil
  then show ?case by (simp add: return_py_def)
next
  case (Cons r rs)
  then obtain d where d: "r = search_result_of d" by auto
  from Cons have ih: "\<And>tr. collect_content sv rs tr =
     (Inr (map (source_of sv) (filter (survives sv) rs)),
      tr @ map (\<lambda>r. HttpGet (field r ''link'')) rs)"
    by simp
  have so: "source_of sv (search_result_of d) =
      \<lparr>sd_title = field (search_result_of d) ''title'',
       sd_content = fetched sv (field (search_result_of d) ''link''),
       sd_url = field (search_result_of d) ''link''\<rparr>"
    by (simp add: source_of_def)
  have su: "survives sv (search_result_of d) =
      (fetched sv (field (search_result_of d) ''link'') \<noteq> [])"
    by (simp add: survives_def)
  show ?case
    by (simp add: d getitem_search_result bind_py_def lift_def return_py_def
        fetch_article_content_eq ih so su)
qed

lemma dict_set_same: "map_of (dict_set k v d) k = Some v"
  by (induction d) auto

lemma dict_set_other: "k' \<noteq> k \<Longrightarrow> map_of (dict_set k v d) k' = map_of d k'"
  by (induction d) auto

lemma dict_set_fresh: "map_of d k = None \<Longrightarrow> dict_set k v d = d @ [(k, v)]"
  by (induction d) (auto split: if_splits)

lemma generate_knowledge_tree_total:
  "\<exists>kt tr'. generate_knowledge_tree sv topic content tr = (Inr kt, tr')"
  by (simp add: generate_knowledge_tree_cases split: sum.splits)

lemma combined_content_eq:
  "combined_content sv (map (source_of sv) rs) =
   join ''\<newline>\<newline>''
     (map (\<lambda>r. ''SOURCE: '' @ to_str sv (field r ''title'') @ ''\<newline>'' @ fetched sv (field r ''link'')) rs)"
  by (simp add: combined_content_def source_block_def source_of_def comp_def)

lemma handler_run:
  assumes "topic \<noteq> []" and "search_web sv topic n tr = (Inr rs, tr1)" and "rs \<noteq> []"
    and "generate_knowledge_tree sv topic
           (combined_content sv (map (source_of sv) (filter (survives sv) rs)))
           (tr1 @ map (\<lambda>r. HttpGet (field r ''link'')) rs) = (Inr kt, tr2)"
  shows "search_button_handler sv topic n tr =
     (case py_setitem kt ''sources'' (JArr (map (\<lambda>r. field r ''link'') (filter (survives sv) rs))) of
        Inl e \<Rightarrow> (Inr (Crashed (''An error occurred: '' @ message e)), tr2)
      | Inr t \<Rightarrow> (Inr (TreeReady t), tr2 @ [Sleep 1]))"
proof -
  have f: "\<forall>r\<in>set rs. \<exists>d. r = search_result_of d"
    using search_web_formatted [OF assms(2)] by blast
  have u: "sd_url \<circ> source_of sv = (\<lambda>r. field r ''link'')"
    by (simp add: fun_eq_iff source_of_def)
  show ?thesis
    using assms(1,3)
    by (simp add: search_button_handler_def try_except_def bind_py_def assms(2)
        collect_content_eq [OF f] assms(4) u lift_def return_py_def call_def split: sum.splits)
qed


text \<open>
  Claim C2. For every topic that is not empty, when \<open>search_web\<close> returns the empty list the
  handler reports that there are no results, and between its start and its end no page is
  fetched and no model is called.
\<close>

theorem no_results_no_calls:
  assumes "topic \<noteq> []" and "search_web sv topic n tr = (Inr [], tr1)"
  shows "search_button_handler sv topic n tr = (Inr NoResults, tr1) \<and>
         fetch_calls tr1 = fetch_calls tr \<and> llm_calls tr1 = llm_calls tr"
proof -
  have "search_button_handler sv topic n tr = (Inr NoResults, tr1)"
    using assms by (simp add: search_button_handler_def try_except_def bind_py_def return_py_def)
  with search_web_calls [OF assms(2)] show ?thesis by simp
qed

text \<open>A provider that answers with no organic result.\<close>

theorem no_results_no_calls_witness:
  "''cats'' \<noteq> [] \<and>
   search_web (sample_services\<lparr>serp_get_dict := \<lambda>q n. Inr [(''organic_results'', JArr [])]\<rparr>)
     ''cats'' 3 [] = (Inr [], [SerpRun ''cats'', SerpGetDict ''cats'' 3]) \<and>
   search_button_handler
     (sample_services\<lparr>serp_get_dict := \<lambda>q n. Inr [(''organic_results'', JArr [])]\<rparr>)
     ''cats'' 3 [] = (Inr NoResults, [SerpRun ''cats'', SerpGetDict ''cats'' 3]) \<and>
   fetch_calls [SerpRun ''cats'', SerpGetDict ''cats'' 3] = fetch_calls [] \<and>
   llm_calls [SerpRun ''cats'', SerpGetDict ''cats'' 3] = llm_calls []"
proof -
  let ?sv = "sample_services\<lparr>serp_get_dict := \<lambda>q n. Inr [(''organic_results'', JArr [])]\<rparr>"
  have t: "''cats'' \<noteq> []" by simp
  have s: "search_web ?sv ''cats'' 3 [] = (Inr [], [SerpRun ''cats'', SerpGetDict ''cats'' 3])"
    by (simp add: search_web_cases sample_services_def slice_items_def py_slice_to_def)
  from no_results_no_calls [OF t s] t s show ?thesis by (intro conjI) simp_all
qed

text \<open>
  The handler on a list of search results that is not empty. It fetches each result in
  order, keeps exactly the results whose fetched text is not empty, and passes to the
  builder the blocks \<open>SOURCE: title\<close>, newline, text of the kept results, in their order,
  joined by blank lines. When the builder returns a dictionary, the stored tree is that
  dictionary with \<open>sources\<close> set to the links of the kept results in the same order, whatever
  \<open>sources\<close> was before, and every other key unchanged; this holds in particular for the
  fallback tree. When the builder returns a JSON value that is not a dictionary, the
  assignment raises, the handler reports the error and stores no tree.
\<close>

theorem sources_follow_survivors:
  assumes "topic \<noteq> []" and "search_web sv topic n tr = (Inr rs, tr1)" and "rs \<noteq> []"
  shows "\<exists>kt tr2.
     generate_knowledge_tree sv topic
       (join ''\<newline>\<newline>''
          (map (\<lambda>r. ''SOURCE: '' @ to_str sv (field r ''title'') @ ''\<newline>'' @
                     fetched sv (field r ''link''))
             (filter (survives sv) rs)))
       (tr1 @ map (\<lambda>r. HttpGet (field r ''link'')) rs) = (Inr kt, tr2) \<and>
     (\<forall>d. kt = JObj d \<longrightarrow>
        (\<exists>d'. search_button_handler sv topic n tr =
                (Inr (TreeReady (JObj d')), tr2 @ [Sleep 1]) \<and>
              map_of d' ''sources'' =
                Some (JArr (map (\<lambda>r. field r ''link'') (filter (survives sv) rs))) \<and>
              (\<forall>k. k \<noteq> ''sources'' \<longrightarrow> map_of d' k = map_of d k))) \<and>
     (\<forall>e. kt = fallback_tree topic e \<longrightarrow>
        search_button_handler sv topic n tr =
          (Inr (TreeReady (JObj
             [(''topic'', JStr topic),
              (''subtopics'', JArr [
                 JObj [(''name'', JStr ''Error generating knowledge tree''),
                       (''key_points'', JArr [
                          JObj [(''point'', JStr ''Error''),
                                (''explanation'',
                                 JStr (''Failed to generate knowledge tree: '' @ message e))]])]]),
              (''sources'', JArr (map (\<lambda>r. field r ''link'') (filter (survives sv) rs)))])),
           tr2 @ [Sleep 1])) \<and>
     ((\<forall>d. kt \<noteq> JObj d) \<longrightarrow>
        (\<exists>m. search_button_handler sv topic n tr = (Inr (Crashed m), tr2)))"
proof -
  let ?c = "combined_content sv (map (source_of sv) (filter (survives sv) rs))"
  let ?tr = "tr1 @ map (\<lambda>r. HttpGet (field r ''link'')) rs"
  let ?urls = "JArr (map (\<lambda>r. field r ''link'') (filter (survives sv) rs))"
  from generate_knowledge_tree_total [of sv topic ?c ?tr]
  obtain kt tr2 where g: "generate_knowledge_tree sv topic ?c ?tr = (Inr kt, tr2)" by blast
  note h = handler_run [OF assms g]
  have a: "\<forall>d. kt = JObj d \<longrightarrow>
        (\<exists>d'. search_button_handler sv topic n tr =
                (Inr (TreeReady (JObj d')), tr2 @ [Sleep 1]) \<and>
              map_of d' ''sources'' = Some ?urls \<and>
              (\<forall>k. k \<noteq> ''sources'' \<longrightarrow> map_of d' k = map_of d k))"
  proof (intro allI impI)
    fix d assume "kt = JObj d"
    with h have hh: "search_button_handler sv topic n tr =
        (Inr (TreeReady (JObj (dict_set ''sources'' ?urls d))), tr2 @ [Sleep 1])"
      by (simp add: py_setitem_def)
    show "\<exists>d'. search_button_handler sv topic n tr =
                (Inr (TreeReady (JObj d')), tr2 @ [Sleep 1]) \<and>
              map_of d' ''sources'' = Some ?urls \<and>
              (\<forall>k. k \<noteq> ''sources'' \<longrightarrow> map_of d' k = map_of d k)"
      by (rule exI [of _ "dict_set ''sources'' ?urls d"])
        (simp add: hh dict_set_same dict_set_other)
  qed
  have b: "\<forall>e. kt = fallback_tree topic e \<longrightarrow>
        search_button_handler sv topic n tr =
          (Inr (TreeReady (JObj
             [(''topic'', JStr topic),
              (''subtopics'', JArr [
                 JObj [(''name'', JStr ''Error generating knowledge tree''),
                       (''key_points'', JArr [
                          JObj [(''point'', JStr ''Error''),
                                (''explanation'',
                                 JStr (''Failed to generate knowledge tree: '' @ message e))]])]]),
              (''sources'', ?urls)])),
           tr2 @ [Sleep 1])"
    using h by (simp add: py_setitem_def fallback_tree_def)
  have c: "(\<forall>d. kt \<noteq> JObj d) \<longrightarrow>
        (\<exists>m. search_button_handler sv topic n tr = (Inr (Crashed m), tr2))"
    using h by (cases kt) (simp_all add: py_setitem_def)
  from g have g': "generate_knowledge_tree sv topic
       (join ''\<newline>\<newline>''
          (map (\<lambda>r. ''SOURCE: '' @ to_str sv (field r ''title'') @ ''\<newline>'' @
                     fetched sv (field r ''link''))
             (filter (survives sv) rs))) ?tr = (Inr kt, tr2)"
    by (simp only: combined_content_eq)
  show ?thesis
    by (rule exI [of _ kt], rule exI [of _ tr2]) (intro conjI, rule g', rule a, rule b, rule c)
qed


lemma sample_fetched:
  "fetched sample_services (JStr ''http://a'') = ''Hello\<newline>world''"
  "fetched sample_services (JStr ''http://b'') = []"
  "fetched sample_services (JStr ''http://c'') = ''Hello\<newline>world''"
  by (simp_all add: fetched_def sample_page_text) (simp_all add: sample_services_def sample_page_text)

lemma sample_search:
  "search_web sample_services ''cats'' 3 [] =
     (Inr [JObj [(''title'', JStr ''A''), (''snippet'', JStr ''a''), (''link'', JStr ''http://a'')],
           JObj [(''title'', JStr ''B''), (''snippet'', JStr []), (''link'', JStr ''http://b'')],
           JObj [(''title'', JStr ''C''), (''snippet'', JStr ''c''), (''link'', JStr ''http://c'')]],
      [SerpRun ''cats'', SerpGetDict ''cats'' 3])"
  by (simp add: search_web_cases sample_services_def sample_results_def slice_items_def
      py_slice_to_def format_result_def py_get_def)

lemma sample_survivors:
  "filter (survives sample_services)
     [JObj [(''title'', JStr ''A''), (''snippet'', JStr ''a''), (''link'', JStr ''http://a'')],
      JObj [(''title'', JStr ''B''), (''snippet'', JStr []), (''link'', JStr ''http://b'')],
      JObj [(''title'', JStr ''C''), (''snippet'', JStr ''c''), (''link'', JStr ''http://c'')]] =
     [JObj [(''title'', JStr ''A''), (''snippet'', JStr ''a''), (''link'', JStr ''http://a'')],
      JObj [(''title'', JStr ''C''), (''snippet'', JStr ''c''), (''link'', JStr ''http://c'')]]"
  by (simp add: survives_def field_def sample_fetched)

lemma sample_generate:
  "generate_knowledge_tree sample_services ''cats'' c tr =
     (Inr (fallback_tree ''cats'' (Exn ''quota exceeded'')), tr @ [TreeLlm ''prompt''])"
  by (simp add: generate_knowledge_tree_cases sample_services_def)

lemma extract_json_empty_object: "extract_json ''{}'' = ''{}''"
  by code_simp

lemma extract_json_empty_array: "extract_json ''[]'' = ''[]''"
  by code_simp

text \<open>
  Three sample results, the second of which cannot be fetched, with three builders: a model
  that raises, an answer that decodes to a dictionary which already has \<open>sources\<close>, and an
  answer that decodes to a list.
\<close>

theorem sources_follow_survivors_witness:
  "''cats'' \<noteq> [] \<and>
   search_web sample_services ''cats'' 3 [] =
     (Inr [JObj [(''title'', JStr ''A''), (''snippet'', JStr ''a''), (''link'', JStr ''http://a'')],
           JObj [(''title'', JStr ''B''), (''snippet'', JStr []), (''link'', JStr ''http://b'')],
           JObj [(''title'', JStr ''C''), (''snippet'', JStr ''c''), (''link'', JStr ''http://c'')]],
      [SerpRun ''cats'', SerpGetDict ''cats'' 3]) \<and>
   search_button_handler sample_services ''cats'' 3 [] =
     (Inr (TreeReady (JObj
        [(''topic'', JStr ''cats''),
         (''subtopics'', JArr [
            JObj [(''name'', JStr ''Error generating knowledge tree''),
                  (''key_points'', JArr [
                     JObj [(''point'', JStr ''Error''),
                           (''explanation'',
                            JStr ''Failed to generate knowledge tree: quota exceeded'')]])]]),
         (''sources'', JArr [JStr ''http://a'', JStr ''http://c''])])),
      [SerpRun ''cats'', SerpGetDict ''cats'' 3, HttpGet (JStr ''http://a''),
       HttpGet (JStr ''http://b''), HttpGet (JStr ''http://c''), TreeLlm ''prompt'', Sleep 1]) \<and>
   (\<exists>d'. search_button_handler
            (sample_services\<lparr>tree_model := \<lambda>p. Inr (JStr ''{}''),
               json_loads := \<lambda>s. Inr (JObj [(''topic'', JStr ''cats''),
                                               (''sources'', JArr [JStr ''old'']),
                                               (''subtopics'', JArr [])])\<rparr>)
            ''cats'' 3 [] =
          (Inr (TreeReady (JObj d')),
           [SerpRun ''cats'', SerpGetDict ''cats'' 3, HttpGet (JStr ''http://a''),
            HttpGet (JStr ''http://b''), HttpGet (JStr ''http://c''), TreeLlm ''prompt'', Sleep 1]) \<and>
        map_of d' ''sources'' = Some (JArr [JStr ''http://a'', JStr ''http://c'']) \<and>
        map_of d' ''topic'' = Some (JStr ''cats'')) \<and>
   (\<exists>m. search_button_handler
           (sample_services\<lparr>tree_model := \<lambda>p. Inr (JStr ''[]''), json_loads := \<lambda>s. Inr (JArr [])\<rparr>)
           ''cats'' 3 [] =
         (Inr (Crashed m),
          [SerpRun ''cats'', SerpGetDict ''cats'' 3, HttpGet (JStr ''http://a''),
           HttpGet (JStr ''http://b''), HttpGet (JStr ''http://c''), TreeLlm ''prompt'']))"
proof -
  let ?rs = "[JObj [(''title'', JStr ''A''), (''snippet'', JStr ''a''), (''link'', JStr ''http://a'')],
      JObj [(''title'', JStr ''B''), (''snippet'', JStr []), (''link'', JStr ''http://b'')],
      JObj [(''title'', JStr ''C''), (''snippet'', JStr ''c''), (''link'', JStr ''http://c'')]]"
  let ?tr = "[SerpRun ''cats'', SerpGetDict ''cats'' 3, HttpGet (JStr ''http://a''),
       HttpGet (JStr ''http://b''), HttpGet (JStr ''http://c''), TreeLlm ''prompt'']"
  let ?old = "[(''topic'', JStr ''cats''), (''sources'', JArr [JStr ''old'']), (''subtopics'', JArr [])]"
  let ?D = "sample_services\<lparr>tree_model := \<lambda>p. Inr (JStr ''{}''), json_loads := \<lambda>s. Inr (JObj ?old)\<rparr>"
  let ?L = "sample_services\<lparr>tree_model := \<lambda>p. Inr (JStr ''[]''), json_loads := \<lambda>s. Inr (JArr [])\<rparr>"
  have t: "''cats'' \<noteq> []" and ne: "?rs \<noteq> []" by simp_all
  have first: "search_button_handler sample_services ''cats'' 3 [] =
     (Inr (TreeReady (JObj
        [(''topic'', JStr ''cats''),
         (''subtopics'', JArr [
            JObj [(''name'', JStr ''Error generating knowledge tree''),
                  (''key_points'', JArr [
                     JObj [(''point'', JStr ''Error''),
                           (''explanation'',
                            JStr ''Failed to generate knowledge tree: quota exceeded'')]])]]),
         (''sources'', JArr [JStr ''http://a'', JStr ''http://c''])])),
      ?tr @ [Sleep 1])"
  proof -
    from sources_follow_survivors [OF t sample_search ne]
    obtain kt tr2 where
      g: "generate_knowledge_tree sample_services ''cats''
            (join ''\<newline>\<newline>''
               (map (\<lambda>r. ''SOURCE: '' @ to_str sample_services (field r ''title'') @ ''\<newline>'' @
                          fetched sample_services (field r ''link''))
                  (filter (survives sample_services) ?rs)))
            ([SerpRun ''cats'', SerpGetDict ''cats'' 3] @ map (\<lambda>r. HttpGet (field r ''link'')) ?rs) =
          (Inr kt, tr2)"
      and f: "\<forall>e. kt = fallback_tree ''cats'' e \<longrightarrow>
          search_button_handler sample_services ''cats'' 3 [] =
            (Inr (TreeReady (JObj
               [(''topic'', JStr ''cats''),
                (''subtopics'', JArr [
                   JObj [(''name'', JStr ''Error generating knowledge tree''),
                         (''key_points'', JArr [
                            JObj [(''point'', JStr ''Error''),
                                  (''explanation'',
                                   JStr (''Failed to generate knowledge tree: '' @ message e))]])]]),
                (''sources'', JArr (map (\<lambda>r. field r ''link'')
                                     (filter (survives sample_services) ?rs)))])),
             tr2 @ [Sleep 1])"
      by blast
    from g have kt: "kt = fallback_tree ''cats'' (Exn ''quota exceeded'')" and tr2: "tr2 = ?tr"
      by (simp_all add: sample_generate field_def)
    from f kt have "search_button_handler sample_services ''cats'' 3 [] =
            (Inr (TreeReady (JObj
               [(''topic'', JStr ''cats''),
                (''subtopics'', JArr [
                   JObj [(''name'', JStr ''Error generating knowledge tree''),
                         (''key_points'', JArr [
                            JObj [(''point'', JStr ''Error''),
                                  (''explanation'',
                                   JStr (''Failed to generate knowledge tree: '' @
                                         message (Exn ''quota exceeded'')))]])]]),
                (''sources'', JArr (map (\<lambda>r. field r ''link'')
                                     (filter (survives sample_services) ?rs)))])),
             tr2 @ [Sleep 1])"
      by blast
    then show ?thesis
      by (simp only: sample_survivors tr2) (simp add: field_def)
  qed
  have sD: "search_web ?D ''cats'' 3 [] = (Inr ?rs, [SerpRun ''cats'', SerpGetDict ''cats'' 3])"
    and sL: "search_web ?L ''cats'' 3 [] = (Inr ?rs, [SerpRun ''cats'', SerpGetDict ''cats'' 3])"
    by (simp_all add: search_web_cases sample_services_def sample_results_def slice_items_def
        py_slice_to_def format_result_def py_get_def)
  have fD: "fetched ?D = fetched sample_services" and fL: "fetched ?L = fetched sample_services"
    by (simp_all add: fun_eq_iff fetched_def sample_services_def)
  have "survives ?D = survives sample_services" and "survives ?L = survives sample_services"
    by (simp_all only: fun_eq_iff survives_def fD fL) simp_all
  then have vD: "filter (survives ?D) ?rs = filter (survives sample_services) ?rs"
    and vL: "filter (survives ?L) ?rs = filter (survives sample_services) ?rs"
    by (simp_all only:)
  have gD: "generate_knowledge_tree ?D ''cats'' c tr = (Inr (JObj ?old), tr @ [TreeLlm ''prompt''])"
    for c tr
    by (simp add: generate_knowledge_tree_cases sample_services_def extract_json_of_def
        extract_json_empty_object)
  have gL: "generate_knowledge_tree ?L ''cats'' c tr = (Inr (JArr []), tr @ [TreeLlm ''prompt''])"
    for c tr
    by (simp add: generate_knowledge_tree_cases sample_services_def extract_json_of_def
        extract_json_empty_array)
  have second: "\<exists>d'. search_button_handler ?D ''cats'' 3 [] =
          (Inr (TreeReady (JObj d')), ?tr @ [Sleep 1]) \<and>
        map_of d' ''sources'' = Some (JArr [JStr ''http://a'', JStr ''http://c'']) \<and>
        map_of d' ''topic'' = Some (JStr ''cats'')"
  proof -
    from sources_follow_survivors [OF t sD ne]
    obtain kt tr2 where
      g: "generate_knowledge_tree ?D ''cats''
            (join ''\<newline>\<newline>''
               (map (\<lambda>r. ''SOURCE: '' @ to_str ?D (field r ''title'') @ ''\<newline>'' @
                          fetched ?D (field r ''link''))
                  (filter (survives ?D) ?rs)))
            ([SerpRun ''cats'', SerpGetDict ''cats'' 3] @ map (\<lambda>r. HttpGet (field r ''link'')) ?rs) =
          (Inr kt, tr2)"
      and f: "\<forall>d. kt = JObj d \<longrightarrow>
          (\<exists>d'. search_button_handler ?D ''cats'' 3 [] =
                  (Inr (TreeReady (JObj d')), tr2 @ [Sleep 1]) \<and>
                map_of d' ''sources'' =
                  Some (JArr (map (\<lambda>r. field r ''link'') (filter (survives ?D) ?rs))) \<and>
                (\<forall>k. k \<noteq> ''sources'' \<longrightarrow> map_of d' k = map_of d k))"
      by blast
    from g have kt: "kt = JObj ?old" and tr2: "tr2 = ?tr"
      by (simp_all add: gD field_def)
    from f kt obtain d' where
      d: "search_button_handler ?D ''cats'' 3 [] = (Inr (TreeReady (JObj d')), tr2 @ [Sleep 1])"
         "map_of d' ''sources'' =
            Some (JArr (map (\<lambda>r. field r ''link'') (filter (survives ?D) ?rs)))"
         "\<forall>k. k \<noteq> ''sources'' \<longrightarrow> map_of d' k = map_of ?old k"
      by blast
    from d(2) have u: "map_of d' ''sources'' = Some (JArr [JStr ''http://a'', JStr ''http://c''])"
      by (simp only: vD sample_survivors) (simp add: field_def)
    from d(3) have "map_of d' ''topic'' = map_of ?old ''topic''" by simp
    then have k: "map_of d' ''topic'' = Some (JStr ''cats'')" by simp
    from d(1) tr2 u k show ?thesis by blast
  qed
  have third: "\<exists>m. search_button_handler ?L ''cats'' 3 [] = (Inr (Crashed m), ?tr)"
  proof -
    from sources_follow_survivors [OF t sL ne]
    obtain kt tr2 where
      g: "generate_knowledge_tree ?L ''cats''
            (join ''\<newline>\<newline>''
               (map (\<lambda>r. ''SOURCE: '' @ to_str ?L (field r ''title'') @ ''\<newline>'' @
                          fetched ?L (field r ''link''))
                  (filter (survives ?L) ?rs)))
            ([SerpRun ''cats'', SerpGetDict ''cats'' 3] @ map (\<lambda>r. HttpGet (field r ''link'')) ?rs) =
          (Inr kt, tr2)"
      and f: "(\<forall>d. kt \<noteq> JObj d) \<longrightarrow>
          (\<exists>m. search_button_handler ?L ''cats'' 3 [] = (Inr (Crashed m), tr2))"
      by blast
    from g have kt: "kt = JArr []" and tr2: "tr2 = ?tr"
      by (simp_all add: gL field_def)
    from kt have "\<forall>d. kt \<noteq> JObj d" by simp
    with f tr2 show ?thesis by blast
  qed
  from first have first': "search_button_handler sample_services ''cats'' 3 [] =
     (Inr (TreeReady (JObj
        [(''topic'', JStr ''cats''),
         (''subtopics'', JArr [
            JObj [(''name'', JStr ''Error generating knowledge tree''),
                  (''key_points'', JArr [
                     JObj [(''point'', JStr ''Error''),
                           (''explanation'',
                            JStr ''Failed to generate knowledge tree: quota exceeded'')]])]]),
         (''sources'', JArr [JStr ''http://a'', JStr ''http://c''])])),
      [SerpRun ''cats'', SerpGetDict ''cats'' 3, HttpGet (JStr ''http://a''),
       HttpGet (JStr ''http://b''), HttpGet (JStr ''http://c''), TreeLlm ''prompt'', Sleep 1])"
    by simp
  from second have second': "\<exists>d'. search_button_handler ?D ''cats'' 3 [] =
          (Inr (TreeReady (JObj d')),
           [SerpRun ''cats'', SerpGetDict ''cats'' 3, HttpGet (JStr ''http://a''),
            HttpGet (JStr ''http://b''), HttpGet (JStr ''http://c''), TreeLlm ''prompt'', Sleep 1]) \<and>
        map_of d' ''sources'' = Some (JArr [JStr ''http://a'', JStr ''http://c'']) \<and>
        map_of d' ''topic'' = Some (JStr ''cats'')"
    by simp
  from t sample_search first' second' third show ?thesis by (intro conjI)
qed

lemma list_answer_generate:
  "generate_knowledge_tree list_answer_services ''cats'' c tr =
     (Inr (JArr []), tr @ [TreeLlm ''prompt''])"
  by (simp add: generate_knowledge_tree_cases list_answer_services_def sample_services_def
      extract_json_of_def extract_json_empty_array)

lemma list_answer_search:
  "search_web list_answer_services ''cats'' 3 [] =
     (Inr [JObj [(''title'', JStr ''A''), (''snippet'', JStr ''a''), (''link'', JStr ''http://a'')],
           JObj [(''title'', JStr ''B''), (''snippet'', JStr []), (''link'', JStr ''http://b'')],
           JObj [(''title'', JStr ''C''), (''snippet'', JStr ''c''), (''link'', JStr ''http://c'')]],
      [SerpRun ''cats'', SerpGetDict ''cats'' 3])"
  by (simp add: search_web_cases list_answer_services_def sample_services_def sample_results_def
      slice_items_def py_slice_to_def format_result_def py_get_def)

text \<open>
  Claim C4 asks that \<open>sources\<close> is set to the links of the kept results for every list of
  search results. \<open>generate_knowledge_tree\<close> is annotated and documented as returning a
  dictionary, but it returns whatever \<open>json.loads\<close> decodes. For a model that answers
  \<open>[]\<close> it returns a list: the assignment \<open>knowledge_tree["sources"] = ...\<close> raises a
  \<open>TypeError\<close>, the handler shows the message of its outer \<open>except\<close>, and no tree and no
  sources are stored.
\<close>

theorem sources_not_set_for_list_answer:
  "search_web list_answer_services ''cats'' 3 [] =
     (Inr [JObj [(''title'', JStr ''A''), (''snippet'', JStr ''a''), (''link'', JStr ''http://a'')],
           JObj [(''title'', JStr ''B''), (''snippet'', JStr []), (''link'', JStr ''http://b'')],
           JObj [(''title'', JStr ''C''), (''snippet'', JStr ''c''), (''link'', JStr ''http://c'')]],
      [SerpRun ''cats'', SerpGetDict ''cats'' 3]) \<and>
   tree_model list_answer_services ''prompt'' = Inr (JStr ''[]'') \<and>
   json_loads list_answer_services (extract_json ''[]'') = Inr (JArr []) \<and>
   search_button_handler list_answer_services ''cats'' 3 [] =
     (Inr (Crashed ''An error occurred: list indices must be integers or slices, not str''),
      [SerpRun ''cats'', SerpGetDict ''cats'' 3, HttpGet (JStr ''http://a''),
       HttpGet (JStr ''http://b''), HttpGet (JStr ''http://c''), TreeLlm ''prompt''])"
proof -
  let ?rs = "[JObj [(''title'', JStr ''A''), (''snippet'', JStr ''a''), (''link'', JStr ''http://a'')],
      JObj [(''title'', JStr ''B''), (''snippet'', JStr []), (''link'', JStr ''http://b'')],
      JObj [(''title'', JStr ''C''), (''snippet'', JStr ''c''), (''link'', JStr ''http://c'')]]"
  have t: "''cats'' \<noteq> []" and ne: "?rs \<noteq> []" by simp_all
  have m: "tree_model list_answer_services ''prompt'' = Inr (JStr ''[]'')"
    and j: "json_loads list_answer_services (extract_json ''[]'') = Inr (JArr [])"
    by (simp_all add: list_answer_services_def extract_json_empty_array)
  have "search_button_handler list_answer_services ''cats'' 3 [] =
     (Inr (Crashed ''An error occurred: list indices must be integers or slices, not str''),
      ([SerpRun ''cats'', SerpGetDict ''cats'' 3] @ map (\<lambda>r. HttpGet (field r ''link'')) ?rs) @
        [TreeLlm ''prompt''])"
    using handler_run [OF t list_answer_search ne list_answer_generate]
    by (simp add: py_setitem_def)
  then have h: "search_button_handler list_answer_services ''cats'' 3 [] =
     (Inr (Crashed ''An error occurred: list indices must be integers or slices, not str''),
      [SerpRun ''cats'', SerpGetDict ''cats'' 3, HttpGet (JStr ''http://a''),
       HttpGet (JStr ''http://b''), HttpGet (JStr ''http://c''), TreeLlm ''prompt''])"
    by (simp add: field_def)
  from list_answer_search m j h show ?thesis by (intro conjI)
qed

section \<open>\<open>analyze_topic\<close>\<close>

lemma analyze_fetch_eq:
  "\<forall>r\<in>set rs. \<exists>d. r = search_result_of d \<Longrightarrow>
   \<exists>tr'. analyze_fetch sv rs tr = (Inr (map (source_of sv) (filter (survives sv) rs)), tr') \<and>
         fetch_calls tr' = fetch_calls tr @ map (\<lambda>r. field r ''link'') rs \<and>
         llm_calls tr' = llm_calls tr"
proof (induction rs arbitrary: tr)
  case Nil
  then show ?case by (simp add: return_py_def)
next
  case (Cons r rs)
  then obtain d where d: "r = search_result_of d" by auto
  have so: "source_of sv (search_result_of d) =
      \<lparr>sd_title = field (search_result_of d) ''title'',
       sd_content = fetched sv (field (search_result_of d) ''link''),
       sd_url = field (search_result_of d) ''link''\<rparr>"
    by (simp add: source_of_def)
  have su: "survives sv (search_result_of d) =
      (fetched sv (field (search_result_of d) ''link'') \<noteq> [])"
    by (simp add: survives_def)
  let ?l = "field (search_result_of d) ''link''"
  show ?case
  proof (cases "survives sv (search_result_of d)")
    case True
    from Cons obtain tr' where
      ih: "analyze_fetch sv rs (tr @ [HttpGet ?l, Sleep 1]) =
             (Inr (map (source_of sv) (filter (survives sv) rs)), tr')"
        "fetch_calls tr' = fetch_calls (tr @ [HttpGet ?l, Sleep 1]) @ map (\<lambda>r. field r ''link'') rs"
        "llm_calls tr' = llm_calls (tr @ [HttpGet ?l, Sleep 1])"
      by (metis list.set_intros(2))
    from True su have ne: "fetched sv ?l \<noteq> []" by simp
    have "analyze_fetch sv (r # rs) tr =
            (Inr (map (source_of sv) (filter (survives sv) (r # rs))), tr')"
      using ne True ih(1)
      by (simp add: d getitem_search_result bind_py_def lift_def return_py_def call_def
          fetch_article_content_eq so)
    with ih(2,3) show ?thesis
      by (simp add: d fetch_calls_append llm_calls_append)
  next
    case False
    from Cons obtain tr' where
      ih: "analyze_fetch sv rs (tr @ [HttpGet ?l]) =
             (Inr (map (source_of sv) (filter (survives sv) rs)), tr')"
        "fetch_calls tr' = fetch_calls (tr @ [HttpGet ?l]) @ map (\<lambda>r. field r ''link'') rs"
        "llm_calls tr' = llm_calls (tr @ [HttpGet ?l])"
      by (metis list.set_intros(2))
    from False su have e: "fetched sv ?l = []" by simp
    have "analyze_fetch sv (r # rs) tr =
            (Inr (map (source_of sv) (filter (survives sv) (r # rs))), tr')"
      using e False ih(1)
      by (simp add: d getitem_search_result bind_py_def lift_def return_py_def call_def
          fetch_article_content_eq)
    with ih(2,3) show ?thesis
      by (simp add: d fetch_calls_append llm_calls_append)
  qed
qed

lemma summarize_content_calls:
  "\<exists>summary tr'. summarize_content sv topic c tr = (Inr summary, tr') \<and>
     fetch_calls tr' = fetch_calls tr"
  by (simp add: summarize_content_def py_defs fetch_calls_append split: sum.splits)

lemma search_web_total: "\<exists>rs tr'. search_web sv q n tr = (Inr rs, tr')"
  by (simp add: search_web_cases split: sum.splits option.splits)

text \<open>
  Claim C10. \<open>analyze_topic\<close> fetches the links of the first three search results, in
  order, and nothing else, however many results \<open>search_web\<close> returned; the \<open>sources\<close> of
  its result are the links among these three whose fetched text is not empty, so there are
  at most three of them.
\<close>

theorem analyze_topic_top_three:
  "\<exists>rs tr1 summary tr'.
     search_web sv topic 5 tr = (Inr rs, tr1) \<and>
     analyze_topic sv topic tr =
       (Inr (JObj [(''topic'', JStr topic), (''summary'', summary),
                   (''sources'', JArr (map (\<lambda>r. field r ''link'')
                                        (filter (survives sv) (take 3 rs))))]),
        tr') \<and>
     fetch_calls tr' = fetch_calls tr @ map (\<lambda>r. field r ''link'') (take 3 rs) \<and>
     length (map (\<lambda>r. field r ''link'') (take 3 rs)) \<le> 3 \<and>
     length (map (\<lambda>r. field r ''link'') (filter (survives sv) (take 3 rs))) \<le> 3"
proof -
  from search_web_total obtain rs tr1 where s: "search_web sv topic 5 tr = (Inr rs, tr1)"
    by blast
  have f: "\<forall>r\<in>set (take 3 rs). \<exists>d. r = search_result_of d"
    using search_web_formatted [OF s] by (blast dest: in_set_takeD)
  from analyze_fetch_eq [OF f, of sv tr1] obtain tr2 where
    a: "analyze_fetch sv (take 3 rs) tr1 =
          (Inr (map (source_of sv) (filter (survives sv) (take 3 rs))), tr2)"
       "fetch_calls tr2 = fetch_calls tr1 @ map (\<lambda>r. field r ''link'') (take 3 rs)"
    by blast
  from summarize_content_calls
    [of sv topic "combined_content sv (map (source_of sv) (filter (survives sv) (take 3 rs)))" tr2]
  obtain summary tr' where
    m: "summarize_content sv topic
          (combined_content sv (map (source_of sv) (filter (survives sv) (take 3 rs)))) tr2 =
        (Inr summary, tr')"
       "fetch_calls tr' = fetch_calls tr2"
    by blast
  have u: "sd_url \<circ> source_of sv = (\<lambda>r. field r ''link'')"
    by (simp add: fun_eq_iff source_of_def)
  have run: "analyze_topic sv topic tr =
       (Inr (JObj [(''topic'', JStr topic), (''summary'', summary),
                   (''sources'', JArr (map (\<lambda>r. field r ''link'')
                                        (filter (survives sv) (take 3 rs))))]),
        tr')"
    by (simp add: analyze_topic_def bind_py_def s py_slice_to_def a(1) m(1) return_py_def u)
  have calls: "fetch_calls tr' = fetch_calls tr @ map (\<lambda>r. field r ''link'') (take 3 rs)"
    using m(2) a(2) search_web_calls [OF s] by simp
  have l1: "length (map (\<lambda>r. field r ''link'') (take 3 rs)) \<le> 3" by simp
  have "length (filter (survives sv) (take 3 rs)) \<le> length (take 3 rs)"
    by (rule length_filter_le)
  then have l2: "length (map (\<lambda>r. field r ''link'') (filter (survives sv) (take 3 rs))) \<le> 3"
    by simp
  show ?thesis
    by (rule exI [of _ rs], rule exI [of _ tr1], rule exI [of _ summary], rule exI [of _ tr'])
      (intro conjI, rule s, rule run, rule calls, rule l1, rule l2)
qed


lemma sample_search_five:
  "search_web sample_services ''cats'' 5 [] =
     (Inr [JObj [(''title'', JStr ''A''), (''snippet'', JStr ''a''), (''link'', JStr ''http://a'')],
           JObj [(''title'', JStr ''B''), (''snippet'', JStr []), (''link'', JStr ''http://b'')],
           JObj [(''title'', JStr ''C''), (''snippet'', JStr ''c''), (''link'', JStr ''http://c'')],
           JObj [(''title'', JStr ''D''), (''snippet'', JStr ''d''), (''link'', JStr ''http://d'')]],
      [SerpRun ''cats'', SerpGetDict ''cats'' 5])"
  by (simp add: search_web_cases sample_services_def sample_results_def slice_items_def
      py_slice_to_def format_result_def py_get_def)

text \<open>Four sample results: the fourth is never fetched, the second cannot be fetched.\<close>

theorem analyze_topic_top_three_witness:
  "search_web sample_services ''cats'' 5 [] =
     (Inr [JObj [(''title'', JStr ''A''), (''snippet'', JStr ''a''), (''link'', JStr ''http://a'')],
           JObj [(''title'', JStr ''B''), (''snippet'', JStr []), (''link'', JStr ''http://b'')],
           JObj [(''title'', JStr ''C''), (''snippet'', JStr ''c''), (''link'', JStr ''http://c'')],
           JObj [(''title'', JStr ''D''), (''snippet'', JStr ''d''), (''link'', JStr ''http://d'')]],
      [SerpRun ''cats'', SerpGetDict ''cats'' 5]) \<and>
   (\<exists>summary tr'.
      analyze_topic sample_services ''cats'' [] =
        (Inr (JObj [(''topic'', JStr ''cats''), (''summary'', summary),
                    (''sources'', JArr [JStr ''http://a'', JStr ''http://c''])]),
         tr') \<and>
      fetch_calls tr' = [JStr ''http://a'', JStr ''http://b'', JStr ''http://c''])"
proof -
  let ?rs = "[JObj [(''title'', JStr ''A''), (''snippet'', JStr ''a''), (''link'', JStr ''http://a'')],
           JObj [(''title'', JStr ''B''), (''snippet'', JStr []), (''link'', JStr ''http://b'')],
           JObj [(''title'', JStr ''C''), (''snippet'', JStr ''c''), (''link'', JStr ''http://c'')],
           JObj [(''title'', JStr ''D''), (''snippet'', JStr ''d''), (''link'', JStr ''http://d'')]]"
  from analyze_topic_top_three [of sample_services "''cats''" "[]"]
  obtain rs tr1 summary tr' where
    s: "search_web sample_services ''cats'' 5 [] = (Inr rs, tr1)"
    and r: "analyze_topic sample_services ''cats'' [] =
       (Inr (JObj [(''topic'', JStr ''cats''), (''summary'', summary),
                   (''sources'', JArr (map (\<lambda>r. field r ''link'')
                                        (filter (survives sample_services) (take 3 rs))))]),
        tr')"
    and c: "fetch_calls tr' = fetch_calls [] @ map (\<lambda>r. field r ''link'') (take 3 rs)"
    by blast
  from s have rs: "rs = ?rs" by (simp add: sample_search_five)
  have t: "take 3 ?rs =
     [JObj [(''title'', JStr ''A''), (''snippet'', JStr ''a''), (''link'', JStr ''http://a'')],
      JObj [(''title'', JStr ''B''), (''snippet'', JStr []), (''link'', JStr ''http://b'')],
      JObj [(''title'', JStr ''C''), (''snippet'', JStr ''c''), (''link'', JStr ''http://c'')]]"
    by (simp add: numeral_3_eq_3)
  from r have r': "analyze_topic sample_services ''cats'' [] =
        (Inr (JObj [(''topic'', JStr ''cats''), (''summary'', summary),
                    (''sources'', JArr [JStr ''http://a'', JStr ''http://c''])]),
         tr')"
    by (simp only: rs t sample_survivors) (simp add: field_def)
  from c have c': "fetch_calls tr' = [JStr ''http://a'', JStr ''http://b'', JStr ''http://c'']"
    by (simp only: rs t) (simp add: field_def)
  from r' c' have "\<exists>summary tr'.
      analyze_topic sample_services ''cats'' [] =
        (Inr (JObj [(''topic'', JStr ''cats''), (''summary'', summary),
                    (''sources'', JArr [JStr ''http://a'', JStr ''http://c''])]),
         tr') \<and>
      fetch_calls tr' = [JStr ''http://a'', JStr ''http://b'', JStr ''http://c'']"
    by blast
  with sample_search_five show ?thesis by (intro conjI)
qed

text \<open>
  Unlike the handler, \<open>analyze_topic\<close> has no branch for an empty search result: it fetches
  nothing, and still asks the model of \<open>WebScraper\<close> for a summary of the empty content.
\<close>

lemma analyze_topic_empty_search:
  assumes "search_web sv topic 5 tr = (Inr [], tr1)"
    and "prompt_format sv SummaryTemplate [(''topic'', topic), (''content'', [])] = Inr p"
  shows "\<exists>summary. analyze_topic sv topic tr =
           (Inr (JObj [(''topic'', JStr topic), (''summary'', summary), (''sources'', JArr [])]),
            tr1 @ [ScraperLlm p])"
  using assms
  by (simp add: analyze_topic_def bind_py_def py_slice_to_def return_py_def
      summarize_content_def try_except_def lift_def call_def combined_content_def
      split: sum.splits)

end
